theory Spec2Isabelle
  imports Main "HOL-Library.Char_ord" "HOL-Library.List_Lexorder"
begin

chapter \<open>The ahrefs-cli request executor and response renderer\<close>

text \<open>
  A shallow embedding of the two packages that carry the logic of the tool: \<open>client\<close>
  (configuration defaults, the retry loop of \<open>Client.Do\<close>, one HTTP attempt in
  \<open>doRequest\<close>, error classification in \<open>parseError\<close>) and \<open>output\<close> (the writer
  with its JSON, YAML-like, CSV and table renderers).

  Go strings and byte slices are \<^typ>\<open>string\<close> (lists of bytes). Go's \<open>int\<close>, \<open>int64\<close> and
  \<open>time.Duration\<close> are \<^typ>\<open>int\<close>: the only arithmetic on them is the loop counter
  \<open>attempt\<close> and the product \<open>attempt * time.Second\<close>, and a run reaches attempt
  \<open>k\<close> only after \<open>1 + ... + (k - 1)\<close> seconds of completed waits, so neither comes near
  \<open>2^63\<close> in a run that can be observed.
\<close>

section \<open>Formatting integers (\<open>%d\<close>)\<close>

fun digits :: "nat \<Rightarrow> string" where
  "digits n = (if n < 10 then [''0123456789'' ! n]
               else digits (n div 10) @ [''0123456789'' ! (n mod 10)])"

definition fmt_d :: "int \<Rightarrow> string" where
  "fmt_d i = (if i < 0 then CHR ''-'' # digits (nat (- i)) else digits (nat i))"

section \<open>Package client: data\<close>

text \<open>The constants of the package; durations are in nanoseconds, as \<open>time.Duration\<close> is.\<close>

definition Second :: int where
  "Second = 1000000000"

definition BaseURL_const :: string where
  "BaseURL_const = ''https://api.ahrefs.com/v3''"

definition DefaultTimeout :: int where
  "DefaultTimeout = 60 * Second"

definition DefaultMaxRetries :: int where
  "DefaultMaxRetries = 3"

text \<open>\<open>Client\<close>; the only field of its \<open>http.Client\<close> that the package sets is the timeout.\<close>

record Client =
  baseURL :: string
  apiKey :: string
  httpClient_Timeout :: int
  maxRetries :: int

record Config =
  APIKey :: string
  BaseURL :: string
  Timeout :: int
  MaxRetries :: int

definition NewClient :: "Config \<Rightarrow> Client" where
  "NewClient cfg =
     (let cfg = (if BaseURL cfg = '''' then cfg\<lparr>BaseURL := BaseURL_const\<rparr> else cfg);
          cfg = (if Timeout cfg = 0 then cfg\<lparr>Timeout := DefaultTimeout\<rparr> else cfg);
          cfg = (if MaxRetries cfg = 0 then cfg\<lparr>MaxRetries := DefaultMaxRetries\<rparr> else cfg)
      in \<lparr>baseURL = BaseURL cfg, apiKey = APIKey cfg,
          httpClient_Timeout = Timeout cfg, maxRetries = MaxRetries cfg\<rparr>)"

record Request =
  Method :: string
  Endpoint :: string
  Params :: "(string \<times> string list) list option"

record ResponseMeta =
  UnitsConsumed :: int
  RateLimitRemaining :: int
  ResponseTimeMS :: int

text \<open>An \<open>http.Header\<close>: canonical header names with their values.\<close>

type_synonym Header = "(string \<times> string list) list"

record Response =
  StatusCode :: int
  Body :: string
  Headers :: Header
  Meta :: ResponseMeta

record APIError =
  StatusCode :: int
  Code :: string
  Message :: string
  Suggestion :: string
  DocsURL :: string

text \<open>
  Go error values. \<open>errorString\<close> is an error made by \<open>fmt.Errorf\<close> without \<open>%w\<close>;
  \<open>wrapError prefix e\<close> is \<open>fmt.Errorf(prefix + "%w", e)\<close>, where \<open>e\<close> may be the nil
  error; \<open>apiError\<close> is a \<open>*APIError\<close>; \<open>ctxError\<close> is what \<open>ctx.Err()\<close> returns;
  \<open>externalError\<close> is an error of the standard library (transport, URL parsing), known by
  its message.
\<close>

datatype ctx_error = Canceled | DeadlineExceeded

datatype error =
    errorString string
  | wrapError string "error option"
  | apiError APIError
  | ctxError ctx_error
  | externalError string

text \<open>\<open>(*APIError).Error\<close> and the \<open>Error\<close> method of the other error values.\<close>

definition APIError_Error :: "APIError \<Rightarrow> string" where
  "APIError_Error e = ''API error ('' @ fmt_d (APIError.StatusCode e) @ ''): '' @ Message e"

fun Error :: "error \<Rightarrow> string" where
  "Error (errorString s) = s"
| "Error (wrapError p None) = p @ ''%!w(<nil>)''"
| "Error (wrapError p (Some e)) = p @ Error e"
| "Error (apiError a) = APIError_Error a"
| "Error (ctxError Canceled) = ''context canceled''"
| "Error (ctxError DeadlineExceeded) = ''context deadline exceeded''"
| "Error (externalError s) = s"

section \<open>The standard library, as far as error classification needs it\<close>

subsection \<open>\<open>net/http\<close>: status texts\<close>

text \<open>
  \<open>http.StatusText\<close>: the text of a status code that the library knows, and the empty
  string for every other code.
\<close>

definition statusTexts :: "(int \<times> string) list" where
  "statusTexts =
    [(100, ''Continue''), (101, ''Switching Protocols''), (102, ''Processing''),
     (103, ''Early Hints''),
     (200, ''OK''), (201, ''Created''), (202, ''Accepted''),
     (203, ''Non-Authoritative Information''), (204, ''No Content''),
     (205, ''Reset Content''), (206, ''Partial Content''), (207, ''Multi-Status''),
     (208, ''Already Reported''), (226, ''IM Used''),
     (300, ''Multiple Choices''), (301, ''Moved Permanently''), (302, ''Found''),
     (303, ''See Other''), (304, ''Not Modified''), (305, ''Use Proxy''),
     (307, ''Temporary Redirect''), (308, ''Permanent Redirect''),
     (400, ''Bad Request''), (401, ''Unauthorized''), (402, ''Payment Required''),
     (403, ''Forbidden''), (404, ''Not Found''), (405, ''Method Not Allowed''),
     (406, ''Not Acceptable''), (407, ''Proxy Authentication Required''),
     (408, ''Request Timeout''), (409, ''Conflict''), (410, ''Gone''),
     (411, ''Length Required''), (412, ''Precondition Failed''),
     (413, ''Request Entity Too Large''), (414, ''Request URI Too Long''),
     (415, ''Unsupported Media Type''), (416, ''Requested Range Not Satisfiable''),
     (417, ''Expectation Failed''), (418, ''I'' @ [CHR 0x27] @ ''m a teapot''),
     (421, ''Misdirected Request''), (422, ''Unprocessable Entity''), (423, ''Locked''),
     (424, ''Failed Dependency''), (425, ''Too Early''), (426, ''Upgrade Required''),
     (428, ''Precondition Required''), (429, ''Too Many Requests''),
     (431, ''Request Header Fields Too Large''),
     (451, ''Unavailable For Legal Reasons''),
     (500, ''Internal Server Error''), (501, ''Not Implemented''), (502, ''Bad Gateway''),
     (503, ''Service Unavailable''), (504, ''Gateway Timeout''),
     (505, ''HTTP Version Not Supported''), (506, ''Variant Also Negotiates''),
     (507, ''Insufficient Storage''), (508, ''Loop Detected''), (510, ''Not Extended''),
     (511, ''Network Authentication Required'')]"

definition StatusText :: "int \<Rightarrow> string" where
  "StatusText code = (case map_of statusTexts code of Some t \<Rightarrow> t | None \<Rightarrow> [])"

subsection \<open>\<open>unicode/utf8\<close>\<close>

definition byte_in :: "nat \<Rightarrow> nat \<Rightarrow> char \<Rightarrow> bool" where
  "byte_in lo hi c = (lo \<le> of_char c \<and> (of_char c :: nat) \<le> hi)"

text \<open>
  The width of the well-formed UTF-8 sequence at the head of the bytes, and 0 where
  \<open>utf8.DecodeRune\<close> returns \<open>(RuneError, 1)\<close>. Only called on a head byte from \<open>0x80\<close> up.
\<close>

fun utf8_width :: "string \<Rightarrow> nat" where
  "utf8_width [] = 0"
| "utf8_width (b0 # rest) =
     (let c = (of_char b0 :: nat) in
      if 0xC2 \<le> c \<and> c \<le> 0xDF then
        (case rest of
           b1 # _ \<Rightarrow> if byte_in 0x80 0xBF b1 then 2 else 0
         | _ \<Rightarrow> 0)
      else if 0xE0 \<le> c \<and> c \<le> 0xEF then
        (case rest of
           b1 # b2 # _ \<Rightarrow>
             if byte_in (if c = 0xE0 then 0xA0 else 0x80) (if c = 0xED then 0x9F else 0xBF) b1
                \<and> byte_in 0x80 0xBF b2
             then 3 else 0
         | _ \<Rightarrow> 0)
      else if 0xF0 \<le> c \<and> c \<le> 0xF4 then
        (case rest of
           b1 # b2 # b3 # _ \<Rightarrow>
             if byte_in (if c = 0xF0 then 0x90 else 0x80) (if c = 0xF4 then 0x8F else 0xBF) b1
                \<and> byte_in 0x80 0xBF b2 \<and> byte_in 0x80 0xBF b3
             then 4 else 0
         | _ \<Rightarrow> 0)
      else 0)"

definition RuneError :: string where
  "RuneError = [CHR 0xEF, CHR 0xBF, CHR 0xBD]"

text \<open>\<open>utf8.EncodeRune\<close> on a code point.\<close>

definition EncodeRune :: "nat \<Rightarrow> string" where
  "EncodeRune r =
     (if r < 0x80 then [char_of r]
      else if r < 0x800 then [char_of (0xC0 + r div 64), char_of (0x80 + r mod 64)]
      else if (0xD800 \<le> r \<and> r < 0xE000) \<or> 0x10FFFF < r then RuneError
      else if r < 0x10000 then
        [char_of (0xE0 + r div 4096), char_of (0x80 + (r div 64) mod 64),
         char_of (0x80 + r mod 64)]
      else
        [char_of (0xF0 + r div 262144), char_of (0x80 + (r div 4096) mod 64),
         char_of (0x80 + (r div 64) mod 64), char_of (0x80 + r mod 64)])"

subsection \<open>\<open>encoding/json\<close>: reading a document\<close>

datatype json =
    JNull
  | JBool bool
  | JNumber string
  | JString string
  | JArray "json list"
  | JObject "(string \<times> json) list"

definition isSpace :: "char \<Rightarrow> bool" where
  "isSpace c = (c = CHR '' '' \<or> c = CHR 0x09 \<or> c = CHR 0x0D \<or> c = CHR 0x0A)"

definition skip_ws :: "string \<Rightarrow> string" where
  "skip_ws = dropWhile isSpace"

definition isDigit :: "char \<Rightarrow> bool" where
  "isDigit c = byte_in 0x30 0x39 c"

definition hexval :: "char \<Rightarrow> nat option" where
  "hexval c =
     (if byte_in 0x30 0x39 c then Some (of_char c - 0x30)
      else if byte_in 0x61 0x66 c then Some (of_char c - 0x61 + 10)
      else if byte_in 0x41 0x46 c then Some (of_char c - 0x41 + 10)
      else None)"

text \<open>\<open>getu4\<close>: the code unit of the escape \<open>\uXXXX\<close> at the head of the bytes.\<close>

definition getu4 :: "string \<Rightarrow> nat option" where
  "getu4 s =
     (case s of
        b # u # h1 # h2 # h3 # h4 # _ \<Rightarrow>
          if b = CHR 0x5C \<and> u = CHR ''u'' then
            (case (hexval h1, hexval h2, hexval h3, hexval h4) of
               (Some a, Some b, Some c, Some d) \<Rightarrow> Some (((a * 16 + b) * 16 + c) * 16 + d)
             | _ \<Rightarrow> None)
          else None
      | _ \<Rightarrow> None)"

text \<open>
  One escape sequence, the backslash included: the bytes it stands for and how many bytes
  of the input it takes. A surrogate that is not followed by its partner becomes the
  replacement character.
\<close>

definition escape_p :: "string \<Rightarrow> (string \<times> nat) option" where
  "escape_p s =
     (case s of
        _ # e # _ \<Rightarrow>
          if e = CHR 0x22 \<or> e = CHR 0x5C \<or> e = CHR ''/'' then Some ([e], 2)
          else if e = CHR ''b'' then Some ([CHR 0x08], 2)
          else if e = CHR ''f'' then Some ([CHR 0x0C], 2)
          else if e = CHR ''n'' then Some ([CHR 0x0A], 2)
          else if e = CHR ''r'' then Some ([CHR 0x0D], 2)
          else if e = CHR ''t'' then Some ([CHR 0x09], 2)
          else if e = CHR ''u'' then
            (case getu4 s of
               None \<Rightarrow> None
             | Some rr \<Rightarrow>
                 if 0xD800 \<le> rr \<and> rr < 0xE000 then
                   (case getu4 (drop 6 s) of
                      Some rr1 \<Rightarrow>
                        if rr < 0xDC00 \<and> 0xDC00 \<le> rr1 \<and> rr1 < 0xE000
                        then Some (EncodeRune ((rr - 0xD800) * 1024 + (rr1 - 0xDC00) + 0x10000), 12)
                        else Some (RuneError, 6)
                    | None \<Rightarrow> Some (RuneError, 6))
                 else Some (EncodeRune rr, 6))
          else None
      | _ \<Rightarrow> None)"

text \<open>
  A string literal after its opening quote: the unquoted bytes and the input after the
  closing quote. Control characters are refused; bytes that are not well-formed UTF-8
  are replaced one by one, as \<open>unquote\<close> does.
\<close>

fun string_p :: "string \<Rightarrow> (string \<times> string) option" where
  "string_p [] = None"
| "string_p (c # cs) =
     (if c = CHR 0x22 then Some ([], cs)
      else if c = CHR 0x5C then
        (case escape_p (c # cs) of
           None \<Rightarrow> None
         | Some (bs, k) \<Rightarrow> map_option (apfst ((@) bs)) (string_p (drop (k - 1) cs)))
      else if (of_char c :: nat) < 0x20 then None
      else if (of_char c :: nat) < 0x80 then map_option (apfst ((#) c)) (string_p cs)
      else
        (let w = utf8_width (c # cs) in
         if w = 0 then map_option (apfst ((@) RuneError)) (string_p cs)
         else map_option (apfst ((@) (take w (c # cs)))) (string_p (drop (w - 1) cs))))"

text \<open>A number literal: its text and the rest of the input.\<close>

definition digits1_p :: "string \<Rightarrow> (string \<times> string) option" where
  "digits1_p s = (if takeWhile isDigit s = [] then None
                  else Some (takeWhile isDigit s, dropWhile isDigit s))"

definition number_p :: "string \<Rightarrow> (string \<times> string) option" where
  "number_p s =
     (let (sign, s1) = (case s of c # r \<Rightarrow> if c = CHR ''-'' then ([c], r) else ([], s)
                                 | [] \<Rightarrow> ([], s));
          ipart = (case s1 of
                     c # r \<Rightarrow> if c = CHR ''0'' then Some ([c], r)
                              else if isDigit c then digits1_p s1 else None
                   | [] \<Rightarrow> None)
      in case ipart of
           None \<Rightarrow> None
         | Some (i, s2) \<Rightarrow>
             (let frac = (case s2 of
                            c # r \<Rightarrow> if c = CHR ''.'' then
                                       map_option (apfst ((#) c)) (digits1_p r)
                                     else Some ([], s2)
                          | [] \<Rightarrow> Some ([], s2))
              in case frac of
                   None \<Rightarrow> None
                 | Some (f, s3) \<Rightarrow>
                     (let ex = (case s3 of
                                  c # r \<Rightarrow>
                                    if c = CHR ''e'' \<or> c = CHR ''E'' then
                                      (case r of
                                         g # r' \<Rightarrow>
                                           if g = CHR ''+'' \<or> g = CHR ''-''
                                           then map_option (apfst ((@) [c, g])) (digits1_p r')
                                           else map_option (apfst ((#) c)) (digits1_p r)
                                       | [] \<Rightarrow> None)
                                    else Some ([], s3)
                                | [] \<Rightarrow> Some ([], s3))
                      in case ex of
                           None \<Rightarrow> None
                         | Some (x, s4) \<Rightarrow> Some (sign @ i @ f @ x, s4))))"

definition maxNestingDepth :: nat where
  "maxNestingDepth = 10000"

text \<open>
  Values, the elements of an array after its opening bracket, and the members of an
  object after its opening brace. The first argument bounds the calls still to be made,
  the second is the nesting depth. A bound of twice the length of the input plus two is
  never reached: a larger one gives the same result (\<open>parse_json_fuel\<close> below).
\<close>

fun value_p :: "nat \<Rightarrow> nat \<Rightarrow> string \<Rightarrow> (json \<times> string) option"
  and elements_p :: "nat \<Rightarrow> nat \<Rightarrow> string \<Rightarrow> (json list \<times> string) option"
  and members_p :: "nat \<Rightarrow> nat \<Rightarrow> string \<Rightarrow> ((string \<times> json) list \<times> string) option"
where
  "value_p 0 d cs = None"
| "value_p (Suc n) d cs =
     (case cs of
        [] \<Rightarrow> None
      | c # r \<Rightarrow>
          if c = CHR 0x7B then
            (if maxNestingDepth \<le> d then None
             else case skip_ws r of
                    [] \<Rightarrow> None
                  | x # r' \<Rightarrow> if x = CHR 0x7D then Some (JObject [], r')
                              else map_option (apfst JObject) (members_p n (Suc d) (x # r')))
          else if c = CHR 0x5B then
            (if maxNestingDepth \<le> d then None
             else case skip_ws r of
                    [] \<Rightarrow> None
                  | x # r' \<Rightarrow> if x = CHR 0x5D then Some (JArray [], r')
                              else map_option (apfst JArray) (elements_p n (Suc d) (x # r')))
          else if c = CHR 0x22 then map_option (apfst JString) (string_p r)
          else if c = CHR ''t'' then
            (if take 4 cs = ''true'' then Some (JBool True, drop 4 cs) else None)
          else if c = CHR ''f'' then
            (if take 5 cs = ''false'' then Some (JBool False, drop 5 cs) else None)
          else if c = CHR ''n'' then
            (if take 4 cs = ''null'' then Some (JNull, drop 4 cs) else None)
          else if c = CHR ''-'' \<or> isDigit c then map_option (apfst JNumber) (number_p cs)
          else None)"
| "elements_p 0 d cs = None"
| "elements_p (Suc n) d cs =
     (case value_p n d cs of
        None \<Rightarrow> None
      | Some (v, r) \<Rightarrow>
          (case skip_ws r of
             [] \<Rightarrow> None
           | x # r' \<Rightarrow>
               if x = CHR '','' then map_option (apfst ((#) v)) (elements_p n d (skip_ws r'))
               else if x = CHR 0x5D then Some ([v], r')
               else None))"
| "members_p 0 d cs = None"
| "members_p (Suc n) d cs =
     (case cs of
        [] \<Rightarrow> None
      | q # r \<Rightarrow>
          if q \<noteq> CHR 0x22 then None
          else
            (case string_p r of
               None \<Rightarrow> None
             | Some (k, r1) \<Rightarrow>
                 (case skip_ws r1 of
                    [] \<Rightarrow> None
                  | colon # r2 \<Rightarrow>
                      if colon \<noteq> CHR '':'' then None
                      else
                        (case value_p n d (skip_ws r2) of
                           None \<Rightarrow> None
                         | Some (v, r3) \<Rightarrow>
                             (case skip_ws r3 of
                                [] \<Rightarrow> None
                              | x # r4 \<Rightarrow>
                                  if x = CHR '','' then
                                    map_option (apfst ((#) (k, v))) (members_p n d (skip_ws r4))
                                  else if x = CHR 0x7D then Some ([(k, v)], r4)
                                  else None)))))"

text \<open>A whole document: one value, with white space around it and nothing else.\<close>

definition parse_json :: "string \<Rightarrow> json option" where
  "parse_json data =
     (case value_p (2 * length data + 2) 0 (skip_ws data) of
        None \<Rightarrow> None
      | Some (v, r) \<Rightarrow> if skip_ws r = [] then Some v else None)"

subsection \<open>\<open>encoding/json\<close>: decoding into the error-response struct\<close>

text \<open>
  The target of \<open>json.Unmarshal\<close> in \<open>parseError\<close> is the anonymous struct
  \<open>struct { Error struct { Code, Message string } }\<close> with the names \<open>error\<close>, \<open>code\<close>
  and \<open>message\<close>. \<open>errResp\<close> holds its two strings.
\<close>

record errResp =
  Error_Code :: string
  Error_Message :: string

text \<open>
  An object key selects a field when it equals the field's name after case folding.
  \<open>foldName\<close> folds ASCII letters to upper case; of the other runes only the long s
  (\<open>U+017F\<close>) and the Kelvin sign (\<open>U+212A\<close>) fold to an ASCII letter, and every other
  rune stays outside ASCII, which is all that a comparison with an ASCII name needs.
\<close>

fun foldName :: "string \<Rightarrow> string" where
  "foldName [] = []"
| "foldName (c # cs) =
     (if byte_in 0x61 0x7A c then char_of (of_char c - (0x20::nat)) # foldName cs
      else if c = CHR 0xC5 \<and> take 1 cs = [CHR 0xBF] then CHR ''S'' # foldName (drop 1 cs)
      else if c = CHR 0xE2 \<and> take 2 cs = [CHR 0x84, CHR 0xAA] then CHR ''K'' # foldName (drop 2 cs)
      else c # foldName cs)"

definition name_matches :: "string \<Rightarrow> string \<Rightarrow> bool" where
  "name_matches key name = (key = name \<or> foldName key = foldName name)"

text \<open>
  The members of the inner object, in order. A string is stored, \<open>null\<close> leaves the field
  as it is, any other value for \<open>code\<close> or \<open>message\<close> is a type error, which makes
  \<open>Unmarshal\<close> return an error (\<open>None\<close>). Members with other names are skipped.
\<close>

fun decode_Error :: "(string \<times> json) list \<Rightarrow> errResp \<Rightarrow> errResp option" where
  "decode_Error [] e = Some e"
| "decode_Error ((k, v) # kvs) e =
     (if name_matches k ''code'' then
        (case v of
           JString s \<Rightarrow> decode_Error kvs (e\<lparr>Error_Code := s\<rparr>)
         | JNull \<Rightarrow> decode_Error kvs e
         | _ \<Rightarrow> None)
      else if name_matches k ''message'' then
        (case v of
           JString s \<Rightarrow> decode_Error kvs (e\<lparr>Error_Message := s\<rparr>)
         | JNull \<Rightarrow> decode_Error kvs e
         | _ \<Rightarrow> None)
      else decode_Error kvs e)"

fun decode_errResp :: "(string \<times> json) list \<Rightarrow> errResp \<Rightarrow> errResp option" where
  "decode_errResp [] e = Some e"
| "decode_errResp ((k, v) # kvs) e =
     (if name_matches k ''error'' then
        (case v of
           JObject fs \<Rightarrow>
             (case decode_Error fs e of None \<Rightarrow> None | Some e' \<Rightarrow> decode_errResp kvs e')
         | JNull \<Rightarrow> decode_errResp kvs e
         | _ \<Rightarrow> None)
      else decode_errResp kvs e)"

text \<open>
  \<open>json.Unmarshal(body, &errResp)\<close>: \<open>None\<close> when it returns an error (a syntax error or
  a type error), otherwise the decoded struct, which starts from its zero value.
\<close>

definition json_Unmarshal :: "string \<Rightarrow> errResp option" where
  "json_Unmarshal data =
     (case parse_json data of
        None \<Rightarrow> None
      | Some JNull \<Rightarrow> Some \<lparr>Error_Code = [], Error_Message = []\<rparr>
      | Some (JObject kvs) \<Rightarrow> decode_errResp kvs \<lparr>Error_Code = [], Error_Message = []\<rparr>
      | Some _ \<Rightarrow> None)"

section \<open>Package client: error classification\<close>

definition parseError :: "int \<Rightarrow> string \<Rightarrow> APIError" where
  "parseError statusCode body =
     (let apiErr = \<lparr>StatusCode = statusCode, Code = [], Message = [], Suggestion = [],
                     DocsURL = []\<rparr>;
          fallback = (let apiErr = apiErr\<lparr>Message := body\<rparr>
                      in if length (Message apiErr) = 0
                         then apiErr\<lparr>Message := StatusText statusCode\<rparr> else apiErr);
          apiErr = (case json_Unmarshal body of
                      Some errResp \<Rightarrow>
                        if Error_Message errResp \<noteq> []
                        then apiErr\<lparr>Code := Error_Code errResp, Message := Error_Message errResp\<rparr>
                        else fallback
                    | None \<Rightarrow> fallback)
      in if statusCode = 401 \<or> statusCode = 403 then
           apiErr\<lparr>Code := ''AUTH_ERROR'',
                  Suggestion := ''Check your API key. Run '' @ [CHR 0x27]
                     @ ''ahrefs config set-key <your-key>'' @ [CHR 0x27] @ '' to configure'',
                  DocsURL := ''https://docs.ahrefs.com/docs/api/reference/api-keys-creation-and-management''\<rparr>
         else if statusCode = 429 then
           apiErr\<lparr>Code := ''RATE_LIMIT_ERROR'',
                  Suggestion := ''Rate limit exceeded. Wait before retrying or check your subscription limits'',
                  DocsURL := ''https://docs.ahrefs.com/docs/api/reference/limits-consumption''\<rparr>
         else if statusCode = 400 then
           apiErr\<lparr>Code := ''VALIDATION_ERROR'',
                  Suggestion := ''Check request parameters. Use --describe flag to see valid options''\<rparr>
         else if statusCode = 404 then
           apiErr\<lparr>Code := ''NOT_FOUND'',
                  Suggestion := ''Endpoint or resource not found. Verify the target and endpoint''\<rparr>
         else apiErr)"

section \<open>Package client: one attempt and the retry loop\<close>

text \<open>
  What lies outside the program is an input of the model. For the request at hand a
  \<open>world\<close> fixes
  \<^item> \<open>url_Parse\<close>: the error of \<open>url.Parse\<close> on a string, if it has one;
  \<^item> \<open>attempt_result\<close>: what the \<open>k\<close>-th call of \<open>doRequest\<close> (counted from 0) meets:
    \<open>http.NewRequestWithContext\<close> fails, the transport fails, reading the body fails, or
    a response arrives with its status, body, header and the elapsed milliseconds that
    \<open>time.Since\<close> reports;
  \<^item> \<open>ctx_Done\<close>: for the \<open>select\<close> before attempt \<open>k\<close>, whether the context's \<open>Done\<close>
    channel wins against the timer, and then what \<open>ctx.Err()\<close> returns;
  \<^item> \<open>Sscanf_d\<close>: the integer that \<open>fmt.Sscanf(s, "%d", ...)\<close> reads from a string, if
    it reads one.
\<close>

datatype http_result =
    newRequestFails error
  | transportFails error
  | readBodyFails error
  | responds int string Header int

record world =
  url_Parse :: "string \<Rightarrow> error option"
  attempt_result :: "nat \<Rightarrow> http_result"
  ctx_Done :: "nat \<Rightarrow> ctx_error option"
  Sscanf_d :: "string \<Rightarrow> int option"

text \<open>
  What a run does to the outside, in order: a backoff timer that ran to its end, a backoff
  wait that the context cut short (both with the timer's duration), and a call of
  \<open>doRequest\<close>, the only place where the network is used.
\<close>

datatype event = Slept int | Interrupted int | Attempt nat

text \<open>\<open>Header.Get\<close> on a canonical key: the first value, or the empty string.\<close>

definition Header_Get :: "Header \<Rightarrow> string \<Rightarrow> string" where
  "Header_Get h key = (case map_of h key of Some (v # _) \<Rightarrow> v | _ \<Rightarrow> [])"

definition doRequest :: "Client \<Rightarrow> world \<Rightarrow> nat \<Rightarrow> Response option \<times> error option" where
  "doRequest c w k =
     (case attempt_result w k of
        newRequestFails e \<Rightarrow> (None, Some (wrapError ''failed to create request: '' (Some e)))
      | transportFails e \<Rightarrow> (None, Some (wrapError ''HTTP request failed: '' (Some e)))
      | readBodyFails e \<Rightarrow> (None, Some (wrapError ''failed to read response body: '' (Some e)))
      | responds status body hdr ms \<Rightarrow>
          (let resp = \<lparr>Response.StatusCode = status, Body = body, Headers = hdr,
                       Meta = \<lparr>UnitsConsumed = 0, RateLimitRemaining = 0,
                               ResponseTimeMS = ms\<rparr>\<rparr>;
               units = Header_Get hdr ''X-Api-Units-Consumed'';
               resp = (if units \<noteq> [] then
                         (case Sscanf_d w units of
                            Some unitsInt \<Rightarrow> resp\<lparr>Meta := (Meta resp)\<lparr>UnitsConsumed := unitsInt\<rparr>\<rparr>
                          | None \<Rightarrow> resp)
                       else resp)
           in if status \<ge> 400 then (Some resp, Some (apiError (parseError status body)))
              else (Some resp, None)))"

text \<open>The return after the loop of \<open>Do\<close>; \<open>lastErr\<close> is nil when the loop never ran.\<close>

definition request_failed :: "Client \<Rightarrow> error option \<Rightarrow> Response option \<times> error option" where
  "request_failed c lastErr =
     (None, Some (wrapError (''request failed after '' @ fmt_d (maxRetries c) @ '' retries: '')
                            lastErr))"

text \<open>
  The loop of \<open>Do\<close> from the iteration \<open>attempt\<close> on: the values \<open>Do\<close> returns and the
  events from there to the return.
\<close>

function Do_loop ::
  "Client \<Rightarrow> world \<Rightarrow> int \<Rightarrow> error option \<Rightarrow> (Response option \<times> error option) \<times> event list"
where
  "Do_loop c w attempt lastErr =
     (if attempt \<le> maxRetries c then
        (case (if attempt > 0 then ctx_Done w (nat attempt) else None) of
           Some ce \<Rightarrow> ((None, Some (ctxError ce)), [Interrupted (attempt * Second)])
         | None \<Rightarrow>
             (let backoff = (if attempt > 0 then [Slept (attempt * Second)] else []);
                  evs = backoff @ [Attempt (nat attempt)]
              in case doRequest c w (nat attempt) of
                   (resp, None) \<Rightarrow> ((resp, None), evs)
                 | (resp, Some err) \<Rightarrow>
                     if (case resp of
                           None \<Rightarrow> False
                         | Some r \<Rightarrow> Response.StatusCode r \<ge> 400 \<and> Response.StatusCode r < 500
                                     \<and> Response.StatusCode r \<noteq> 429)
                     then (request_failed c (Some err), evs)
                     else (case Do_loop c w (attempt + 1) (Some err) of
                             (res, rest) \<Rightarrow> (res, evs @ rest))))
      else (request_failed c lastErr, []))"
  by pat_completeness auto
termination
  by (relation "measure (\<lambda>(c, w, attempt, lastErr). nat (maxRetries c + 1 - attempt))") auto

definition Do :: "Client \<Rightarrow> world \<Rightarrow> Request \<Rightarrow> (Response option \<times> error option) \<times> event list"
where
  "Do c w req =
     (if apiKey c = [] then ((None, Some (errorString ''API key is required'')), [])
      else case url_Parse w (baseURL c @ Endpoint req) of
             Some err \<Rightarrow> ((None, Some (wrapError ''invalid endpoint: '' (Some err))), [])
           | None \<Rightarrow> Do_loop c w 0 None)"

definition Get :: "Client \<Rightarrow> world \<Rightarrow> string \<Rightarrow> (string \<times> string list) list option
    \<Rightarrow> (Response option \<times> error option) \<times> event list" where
  "Get c w endpoint params = Do c w \<lparr>Method = ''GET'', Endpoint = endpoint, Params = params\<rparr>"

definition Post :: "Client \<Rightarrow> world \<Rightarrow> string \<Rightarrow> (string \<times> string list) list option
    \<Rightarrow> (Response option \<times> error option) \<times> event list" where
  "Post c w endpoint params = Do c w \<lparr>Method = ''POST'', Endpoint = endpoint, Params = params\<rparr>"

section \<open>Package output: values as the renderers see them\<close>

text \<open>
  The renderers take an \<open>interface{}\<close> and inspect it with package \<open>reflect\<close>. A
  \<open>gvalue\<close> is such a value: the nil interface, a boolean, an integer, a string, a value
  of any other kind that is no container (a float, say) known by the text that \<open>%v\<close>
  prints for it, a map with string keys, a slice, an array, or a struct with its fields in
  declaration order.

  A Go map has no order of its own; the list of a \<open>VMap\<close> is the order in which
  \<open>MapKeys\<close> hands out the keys in the run at hand. The flag of a map, slice or array
  says whether its element type is an interface type (as in \<open>map[string]interface{}\<close>)
  rather than a concrete type (as in \<open>map[string][]string\<close>): \<open>reflect\<close> reports the
  kind of an element by the element type, so \<open>MapIndex\<close> and \<open>Index\<close> on a container of
  interfaces give a \<open>Value\<close> of kind \<open>Interface\<close>, whatever it holds.
\<close>

record StructField =
  Name :: string
  PkgPath :: string
  Tag_json :: string

datatype gvalue =
    VNil
  | VBool bool
  | VInt int
  | VString string
  | VOther string
  | VMap bool "(string \<times> gvalue) list"
  | VSlice bool "gvalue list"
  | VArray bool "gvalue list"
  | VStruct "(StructField \<times> gvalue) list"

datatype Kind =
  KInvalid | KBool | KInt | KString | KOther | KInterface | KMap | KSlice | KArray | KStruct

text \<open>
  A \<open>reflect.Value\<close>: whether it was taken out of a container of interfaces, and the
  value it holds.
\<close>

type_synonym Value = "bool \<times> gvalue"

definition ValueOf :: "gvalue \<Rightarrow> Value" where
  "ValueOf v = (False, v)"

fun dynamic_kind :: "gvalue \<Rightarrow> Kind" where
  "dynamic_kind VNil = KInvalid"
| "dynamic_kind (VBool _) = KBool"
| "dynamic_kind (VInt _) = KInt"
| "dynamic_kind (VString _) = KString"
| "dynamic_kind (VOther _) = KOther"
| "dynamic_kind (VMap _ _) = KMap"
| "dynamic_kind (VSlice _ _) = KSlice"
| "dynamic_kind (VArray _ _) = KArray"
| "dynamic_kind (VStruct _) = KStruct"

definition Kind_of :: "Value \<Rightarrow> Kind" where
  "Kind_of val = (if fst val then KInterface else dynamic_kind (snd val))"

definition Interface :: "Value \<Rightarrow> gvalue" where
  "Interface val = snd val"

text \<open>
  The keys of a map value each with \<open>MapIndex\<close> of the key, and the elements of a slice
  or array value (\<open>Index\<close> from 0 to \<open>Len - 1\<close>). They are only used on a value whose kind
  was tested before.
\<close>

definition MapEntries :: "Value \<Rightarrow> (string \<times> Value) list" where
  "MapEntries val =
     (case snd val of VMap iface kvs \<Rightarrow> map (\<lambda>(k, v). (k, (iface, v))) kvs | _ \<Rightarrow> [])"

definition Elems :: "Value \<Rightarrow> Value list" where
  "Elems val =
     (case snd val of
        VSlice iface vs \<Rightarrow> map (Pair iface) vs
      | VArray iface vs \<Rightarrow> map (Pair iface) vs
      | _ \<Rightarrow> [])"

definition Fields :: "Value \<Rightarrow> (StructField \<times> gvalue) list" where
  "Fields val = (case snd val of VStruct fs \<Rightarrow> fs | _ \<Rightarrow> [])"

definition IsExported :: "StructField \<Rightarrow> bool" where
  "IsExported f = (PkgPath f = [])"

subsection \<open>\<open>strings\<close> and \<open>fmt\<close>\<close>

definition nl :: string where
  "nl = [CHR 0x0A]"

definition tab :: string where
  "tab = [CHR 0x09]"

fun Repeat :: "string \<Rightarrow> nat \<Rightarrow> string" where
  "Repeat s 0 = []"
| "Repeat s (Suc n) = s @ Repeat s n"

fun Join :: "string list \<Rightarrow> string \<Rightarrow> string" where
  "Join [] sep = []"
| "Join [x] sep = x"
| "Join (x # y # ys) sep = x @ sep @ Join (y # ys) sep"

text \<open>
  The verb \<open>%v\<close>. A map prints with its keys sorted, a struct with the values of all its
  fields.
\<close>

fun Sprint_v :: "gvalue \<Rightarrow> string" where
  "Sprint_v VNil = ''<nil>''"
| "Sprint_v (VBool b) = (if b then ''true'' else ''false'')"
| "Sprint_v (VInt i) = fmt_d i"
| "Sprint_v (VString s) = s"
| "Sprint_v (VOther s) = s"
| "Sprint_v (VMap _ kvs) =
     ''map['' @ Join (map (\<lambda>kv. fst kv @ '':'' @ Sprint_v (snd kv)) (sort_key fst kvs)) '' ''
       @ '']''"
| "Sprint_v (VSlice _ vs) = ''['' @ Join (map Sprint_v vs) '' '' @ '']''"
| "Sprint_v (VArray _ vs) = ''['' @ Join (map Sprint_v vs) '' '' @ '']''"
| "Sprint_v (VStruct fs) = ''{'' @ Join (map (\<lambda>fv. Sprint_v (snd fv)) fs) '' '' @ ''}''"

section \<open>Package output: the writer\<close>

text \<open>
  A \<open>Format\<close> is a string. The writer's sink is taken to accept every write, and what
  reaches it is recorded as the list of calls that hand data to it: bytes printed straight
  to the sink, a value given to the JSON encoder (which the writer always sets to an
  indentation of two spaces), a record given to the CSV writer, bytes printed to the tab
  writer. No call, no byte.
\<close>

type_synonym Format = string

definition FormatJSON :: Format where
  "FormatJSON = ''json''"

definition FormatYAML :: Format where
  "FormatYAML = ''yaml''"

definition FormatCSV :: Format where
  "FormatCSV = ''csv''"

definition FormatTable :: Format where
  "FormatTable = ''table''"

record Writer =
  format :: Format

datatype sink_call =
    Fprint string
  | Encode gvalue
  | CsvWrite "string list"
  | TabFprint string

text \<open>How a call ends: it returns its error result (nil is \<open>None\<close>), or it panics.\<close>

datatype outcome = Returns "error option" | Panics string

subsection \<open>Errors\<close>



subsection \<open>JSON\<close>

definition writeJSON :: "Writer \<Rightarrow> gvalue \<Rightarrow> ResponseMeta option \<Rightarrow> sink_call list \<times> outcome" where
  "writeJSON w data meta =
     (let response = [(''status'', VString ''success''), (''data'', data)];
          response =
            (case meta of
               None \<Rightarrow> response
             | Some m \<Rightarrow>
                 (let mm = [(''response_time_ms'', VInt (ResponseTimeMS m))];
                      mm = (if UnitsConsumed m > 0
                            then mm @ [(''units_consumed'', VInt (UnitsConsumed m))] else mm);
                      mm = (if RateLimitRemaining m > 0
                            then mm @ [(''rate_limit_remaining'', VInt (RateLimitRemaining m))]
                            else mm)
                  in response @ [(''meta'', VMap True mm)]))
      in ([Encode (VMap True response)], Returns None))"

subsection \<open>The YAML-like dump\<close>

text \<open>
  \<open>writeYAMLValue\<close> gives the bytes it prints. Its error result is nil on every path: the
  results of \<open>fmt.Fprintf\<close> are dropped and nothing else makes an error.
\<close>

fun writeYAMLValue :: "gvalue \<Rightarrow> nat \<Rightarrow> string" where
  "writeYAMLValue VNil indent = Repeat ''  '' indent @ ''nil'' @ nl"
| "writeYAMLValue (VMap iface kvs) indent =
     concat (map (\<lambda>kv. Repeat ''  '' indent @ fst kv @ '':'' @ nl
                        @ writeYAMLValue (snd kv) (indent + 1)) kvs)"
| "writeYAMLValue (VSlice iface vs) indent =
     concat (map (\<lambda>v. Repeat ''  '' indent @ ''-'' @ nl @ writeYAMLValue v (indent + 1)) vs)"
| "writeYAMLValue (VArray iface vs) indent =
     concat (map (\<lambda>v. Repeat ''  '' indent @ ''-'' @ nl @ writeYAMLValue v (indent + 1)) vs)"
| "writeYAMLValue (VStruct fs) indent =
     concat (map (\<lambda>fv. if IsExported (fst fv)
                        then Repeat ''  '' indent @ Name (fst fv) @ '':'' @ nl
                             @ writeYAMLValue (snd fv) (indent + 1)
                        else []) fs)"
| "writeYAMLValue v indent = Repeat ''  '' indent @ Sprint_v v @ nl"

definition writeYAML :: "Writer \<Rightarrow> gvalue \<Rightarrow> ResponseMeta option \<Rightarrow> sink_call list \<times> outcome" where
  "writeYAML w data meta =
     ([Fprint (''status: success'' @ nl), Fprint (''data:'' @ nl), Fprint (writeYAMLValue data 1)],
      Returns None)"

subsection \<open>Headers and rows\<close>

text \<open>The name a struct field goes by: the part of its \<open>json\<close> tag before the first comma,
  or the field's own name when the tag is empty or \<open>-\<close>.\<close>

definition fieldName :: "StructField \<Rightarrow> string" where
  "fieldName field =
     (if Tag_json field \<noteq> [] \<and> Tag_json field \<noteq> ''-''
      then takeWhile (\<lambda>c. c \<noteq> CHR '','') (Tag_json field)
      else Name field)"

definition extractHeaders :: "Value \<Rightarrow> string list" where
  "extractHeaders v =
     (if Kind_of v = KMap then map fst (MapEntries v)
      else if Kind_of v = KStruct then map (fieldName \<circ> fst) (filter (IsExported \<circ> fst) (Fields v))
      else [])"

text \<open>
  \<open>extractRow\<close> looks every header up among all fields of a struct, exported or not, and
  calls \<open>Interface\<close> on the first field of that name; on an unexported field that call
  panics. \<open>None\<close> is the panic.
\<close>

definition interface_panic :: string where
  "interface_panic =
     ''reflect.Value.Interface: cannot return value obtained from unexported field or method''"

definition extractRow :: "Value \<Rightarrow> string list \<Rightarrow> string list option" where
  "extractRow v headers =
     (if Kind_of v = KMap then
        Some (map (\<lambda>header. case map_of (MapEntries v) header of
                               Some x \<Rightarrow> Sprint_v (Interface x)
                             | None \<Rightarrow> []) headers)
      else if Kind_of v = KStruct then
        those (map (\<lambda>header. case find (\<lambda>fv. fieldName (fst fv) = header) (Fields v) of
                                Some fv \<Rightarrow> if IsExported (fst fv) then Some (Sprint_v (snd fv))
                                           else None
                              | None \<Rightarrow> Some []) headers)
      else Some (map (\<lambda>header. []) headers))"

text \<open>
  The map-unwrapping that \<open>writeCSV\<close> and \<open>writeTable\<close> share: for a map, the first entry
  (in \<open>MapKeys\<close> order) whose value has kind \<open>Slice\<close> or \<open>Array\<close> replaces the value.
\<close>

definition unwrap_map :: "Value \<Rightarrow> Value" where
  "unwrap_map val =
     (if Kind_of val = KMap then
        (case find (\<lambda>kv. Kind_of (snd kv) = KSlice \<or> Kind_of (snd kv) = KArray) (MapEntries val) of
           Some kv \<Rightarrow> snd kv
         | None \<Rightarrow> val)
      else val)"

subsection \<open>CSV\<close>

fun csv_rows :: "Value list \<Rightarrow> string list \<Rightarrow> sink_call list \<times> outcome" where
  "csv_rows [] headers = ([], Returns None)"
| "csv_rows (v # vs) headers =
     (case extractRow v headers of
        None \<Rightarrow> ([], Panics interface_panic)
      | Some row \<Rightarrow> (case csv_rows vs headers of (ws, r) \<Rightarrow> (CsvWrite row # ws, r)))"

definition writeCSV :: "Writer \<Rightarrow> gvalue \<Rightarrow> sink_call list \<times> outcome" where
  "writeCSV w data =
     (let val = unwrap_map (ValueOf data)
      in if Kind_of val \<noteq> KSlice \<and> Kind_of val \<noteq> KArray then
           ([], Returns (Some (errorString ''CSV format requires array/slice data'')))
         else if length (Elems val) = 0 then ([], Returns None)
         else
           (let first = hd (Elems val);
                headers = extractHeaders first
            in case csv_rows (Elems val) headers of (ws, r) \<Rightarrow> (CsvWrite headers # ws, r)))"

subsection \<open>Table\<close>

definition writeTableObject :: "gvalue \<Rightarrow> sink_call list \<times> outcome" where
  "writeTableObject data =
     (let val = ValueOf data
      in if Kind_of val = KMap then
           (map (\<lambda>kv. TabFprint (fst kv @ '':'' @ tab @ Sprint_v (Interface (snd kv)) @ nl))
                (MapEntries val),
            Returns None)
         else if Kind_of val = KStruct then
           (map (\<lambda>fv. TabFprint (Name (fst fv) @ '':'' @ tab @ Sprint_v (snd fv) @ nl))
                (filter (IsExported \<circ> fst) (Fields val)),
            Returns None)
         else ([TabFprint (''Value:'' @ tab @ Sprint_v data @ nl)], Returns None))"

fun table_rows :: "Value list \<Rightarrow> string list \<Rightarrow> sink_call list \<times> outcome" where
  "table_rows [] headers = ([], Returns None)"
| "table_rows (v # vs) headers =
     (case extractRow v headers of
        None \<Rightarrow> ([], Panics interface_panic)
      | Some row \<Rightarrow>
          (case table_rows vs headers of (ws, r) \<Rightarrow> (TabFprint (Join row tab @ nl) # ws, r)))"

definition writeTable :: "Writer \<Rightarrow> gvalue \<Rightarrow> sink_call list \<times> outcome" where
  "writeTable w data =
     (let val = unwrap_map (ValueOf data)
      in if Kind_of val \<noteq> KSlice \<and> Kind_of val \<noteq> KArray then writeTableObject data
         else if length (Elems val) = 0 then ([TabFprint (''(no results)'' @ nl)], Returns None)
         else
           (let headers = extractHeaders (hd (Elems val))
            in case table_rows (Elems val) headers of
                 (ws, r) \<Rightarrow>
                   (TabFprint (Join headers tab @ nl)
                      # TabFprint (Repeat ''-'' (length headers * 10) @ nl) # ws, r)))"

subsection \<open>Dispatch\<close>

definition WriteSuccess :: "Writer \<Rightarrow> gvalue \<Rightarrow> ResponseMeta option \<Rightarrow> sink_call list \<times> outcome" where
  "WriteSuccess w data meta =
     (if format w = FormatJSON then writeJSON w data meta
      else if format w = FormatYAML then writeYAML w data meta
      else if format w = FormatCSV then writeCSV w data
      else if format w = FormatTable then writeTable w data
      else ([], Returns (Some (errorString (''unsupported output format: '' @ format w)))))"

section \<open>Reading a run\<close>

text \<open>
  The events of one iteration of the loop of \<open>Do\<close> that goes through to its request: the
  backoff timer, from the second iteration on, and the request. \<open>attempts\<close> counts the
  requests of a run.
\<close>

definition iteration_events :: "nat \<Rightarrow> event list" where
  "iteration_events k = (if k > 0 then [Slept (int k * Second)] else []) @ [Attempt k]"

fun is_Attempt :: "event \<Rightarrow> bool" where
  "is_Attempt (Attempt k) = True"
| "is_Attempt _ = False"

definition attempts :: "event list \<Rightarrow> nat" where
  "attempts evs = length (filter is_Attempt evs)"

section \<open>Reading a dump\<close>

text \<open>
  The lines of a text, without their newlines, and the text with every line moved two
  spaces to the right. \<open>single_lines\<close> holds of a value whose map keys, exported field
  names and scalars print without a newline, so that each of them takes one line of the
  YAML-like dump. A text is \<open>complete\<close> when it is empty or ends with a newline.
\<close>

fun text_lines :: "string \<Rightarrow> string list" where
  "text_lines [] = []"
| "text_lines (c # cs) =
     (if c = CHR 0x0A then [] # text_lines cs
      else case text_lines cs of [] \<Rightarrow> [[c]] | l # ls \<Rightarrow> (c # l) # ls)"

definition indent_text :: "string \<Rightarrow> string" where
  "indent_text s = concat (map (\<lambda>l. ''  '' @ l @ nl) (text_lines s))"

definition one_line :: "string \<Rightarrow> bool" where
  "one_line s = (CHR 0x0A \<notin> set s)"

fun single_lines :: "gvalue \<Rightarrow> bool" where
  "single_lines VNil = True"
| "single_lines (VMap iface kvs) = (\<forall>kv \<in> set kvs. one_line (fst kv) \<and> single_lines (snd kv))"
| "single_lines (VSlice iface vs) = (\<forall>v \<in> set vs. single_lines v)"
| "single_lines (VArray iface vs) = (\<forall>v \<in> set vs. single_lines v)"
| "single_lines (VStruct fs) =
     (\<forall>fv \<in> set fs. IsExported (fst fv) \<longrightarrow> one_line (Name (fst fv)) \<and> single_lines (snd fv))"
| "single_lines v = one_line (Sprint_v v)"

definition complete :: "string \<Rightarrow> bool" where
  "complete s = (s = [] \<or> last s = CHR 0x0A)"

section \<open>Inputs taken from the package's tests and notes\<close>

text \<open>
  The client and request of the tests in \<open>client_test.go\<close>, and worlds for its servers:
  one that fails twice with 500 and then answers 200 (\<open>TestClient_Retries\<close>), one that
  answers 400 (\<open>TestClient_NoRetryOn4xx\<close>), one that answers 404, one that answers 500
  every time. In a \<open>plain_world\<close> the URL parses and the context is never done.
\<close>

definition test_client :: Client where
  "test_client = NewClient \<lparr>APIKey = ''test-key'', BaseURL = [], Timeout = 0, MaxRetries = 3\<rparr>"

definition keyless_client :: Client where
  "keyless_client = NewClient \<lparr>APIKey = [], BaseURL = [], Timeout = 0, MaxRetries = 0\<rparr>"

definition test_request :: Request where
  "test_request = \<lparr>Method = ''GET'', Endpoint = ''/test'', Params = None\<rparr>"

definition plain_world :: "(nat \<Rightarrow> http_result) \<Rightarrow> world" where
  "plain_world server =
     \<lparr>url_Parse = (\<lambda>u. None), attempt_result = server, ctx_Done = (\<lambda>k. None),
      Sscanf_d = (\<lambda>s. None)\<rparr>"

definition flaky_server :: "nat \<Rightarrow> http_result" where
  \<open>flaky_server k =
     (if k < 2 then responds 500 [] [] 0 else responds 200 ''{"result":"success"}'' [] 0)\<close>

definition bad_request_server :: "nat \<Rightarrow> http_result" where
  \<open>bad_request_server k = responds 400 ''{"error":{"message":"bad request"}}'' [] 0\<close>


definition failing_server :: "nat \<Rightarrow> http_result" where
  "failing_server k = responds 500 [] [] 0"


text \<open>Error bodies: one with a code and a message, as the API sends them.\<close>

definition coded_error_body :: string where
  \<open>coded_error_body = ''{"error":{"code":"X","message":"m"}}''\<close>

definition invalid_key_body :: string where
  \<open>invalid_key_body = ''{"error":{"message":"Invalid API key"}}''\<close>

text \<open>
  The payload of the \<open>domain-rating\<close> command for a rating of 91, a
  \<open>models.DomainRatingResponse\<close>, whose YAML and table renderings \<open>TESTING.md\<close> shows.
\<close>

definition exported_field :: "string \<Rightarrow> string \<Rightarrow> StructField" where
  "exported_field name tag = \<lparr>Name = name, PkgPath = [], Tag_json = tag\<rparr>"

definition domain_rating_91 :: gvalue where
  "domain_rating_91 =
     VStruct [(exported_field ''DomainRating'' ''domain_rating'',
               VStruct [(exported_field ''DomainRating'' ''domain_rating'', VOther ''91'')])]"

definition yaml_writer :: Writer where
  "yaml_writer = \<lparr>format = FormatYAML\<rparr>"


definition csv_writer :: Writer where
  "csv_writer = \<lparr>format = FormatCSV\<rparr>"

section \<open>Properties of the client\<close>

declare Do_loop.simps [simp del]

lemma json_Unmarshal_empty: "json_Unmarshal [] = None"
  by (simp add: json_Unmarshal_def parse_json_def skip_ws_def)

subsection \<open>The bound of the JSON reader is never reached\<close>

text \<open>
  The readers return no more input than they were given, so a call with more than twice
  the length of its input as bound returns what it returns with any larger bound.
\<close>

lemma skip_ws_length: "length (skip_ws cs) \<le> length cs"
  by (simp add: skip_ws_def length_dropWhile_le)

lemma string_p_length: "string_p cs = Some (s, r) \<Longrightarrow> length r \<le> length cs"
proof (induction cs arbitrary: s r rule: string_p.induct)
  case 1
  then show ?case by simp
next
  case (2 c cs)
  show ?case
  proof (cases "c = CHR 0x22")
    case True
    with 2(5) show ?thesis by simp
  next
    case nq: False
    show ?thesis
    proof (cases "c = CHR 0x5C")
      case True
      with nq 2(5) obtain bs k s' where e: "escape_p (c # cs) = Some (bs, k)"
        and r: "string_p (drop (k - 1) cs) = Some (s', r)"
        by (auto split: option.splits)
      from 2(1)[OF nq True e refl r] have "length r \<le> length (drop (k - 1) cs)" .
      then show ?thesis by simp
    next
      case nb: False
      show ?thesis
      proof (cases "(of_char c :: nat) < 0x80")
        case True
        with nq nb 2(5) obtain s' where r: "string_p cs = Some (s', r)" and "\<not> (of_char c :: nat) < 0x20"
          by (auto split: if_splits)
        with 2(2)[OF nq nb _ True r] show ?thesis by simp
      next
        case False
        then have n20: "\<not> (of_char c :: nat) < 0x20" by simp
        show ?thesis
        proof (cases "utf8_width (c # cs) = 0")
          case True
          with nq nb n20 False 2(5) obtain s' where r: "string_p cs = Some (s', r)"
            by (auto simp: Let_def)
          with 2(3)[OF nq nb n20 False refl True r] show ?thesis by simp
        next
          case w: False
          with nq nb n20 False 2(5) obtain s' where
            r: "string_p (drop (utf8_width (c # cs) - 1) cs) = Some (s', r)"
            by (auto simp: Let_def)
          from 2(4)[OF nq nb n20 False refl w r]
          have "length r \<le> length (drop (utf8_width (c # cs) - 1) cs)" .
          then show ?thesis by simp
        qed
      qed
    qed
  qed
qed

lemma digits1_p_length: "digits1_p s = Some (t, r) \<Longrightarrow> length r \<le> length s"
  by (auto simp: digits1_p_def length_dropWhile_le split: if_splits)

lemma number_p_length: "number_p s = Some (t, r) \<Longrightarrow> length r \<le> length s"
  unfolding number_p_def Let_def
  by (auto split: list.splits if_splits option.splits prod.splits dest!: digits1_p_length)


lemma map_option_apfst_Some:
  "map_option (apfst f) x = Some (v, r) \<longleftrightarrow> (\<exists>a. x = Some (a, r) \<and> v = f a)"
  by (cases x) auto

lemma value_p_obj:
  "value_p (Suc n) d (CHR 0x7B # t) =
     (if maxNestingDepth \<le> d then None
      else case skip_ws t of
             [] \<Rightarrow> None
           | x # r' \<Rightarrow> if x = CHR 0x7D then Some (JObject [], r')
                       else map_option (apfst JObject) (members_p n (Suc d) (x # r')))"
  by simp

lemma value_p_arr:
  "value_p (Suc n) d (CHR 0x5B # t) =
     (if maxNestingDepth \<le> d then None
      else case skip_ws t of
             [] \<Rightarrow> None
           | x # r' \<Rightarrow> if x = CHR 0x5D then Some (JArray [], r')
                       else map_option (apfst JArray) (elements_p n (Suc d) (x # r')))"
  by simp

lemma value_p_str:
  "value_p (Suc n) d (CHR 0x22 # t) = map_option (apfst JString) (string_p t)"
  by simp

lemma value_p_other:
  "c \<noteq> CHR 0x7B \<Longrightarrow> c \<noteq> CHR 0x5B \<Longrightarrow> c \<noteq> CHR 0x22 \<Longrightarrow>
   value_p (Suc n) d (c # t) =
     (if c = CHR ''t'' then
        (if take 4 (c # t) = ''true'' then Some (JBool True, drop 4 (c # t)) else None)
      else if c = CHR ''f'' then
        (if take 5 (c # t) = ''false'' then Some (JBool False, drop 5 (c # t)) else None)
      else if c = CHR ''n'' then
        (if take 4 (c # t) = ''null'' then Some (JNull, drop 4 (c # t)) else None)
      else if c = CHR ''-'' \<or> isDigit c then map_option (apfst JNumber) (number_p (c # t))
      else None)"
  by (simp del: take_Suc_Cons drop_Suc_Cons take_Cons_numeral drop_Cons_numeral)


lemma value_p_Suc_length:
  assumes M: "\<And>d cs ms r. members_p n d cs = Some (ms, r) \<Longrightarrow> length r \<le> length cs"
    and E: "\<And>d cs vs r. elements_p n d cs = Some (vs, r) \<Longrightarrow> length r \<le> length cs"
    and v: "value_p (Suc n) d cs = Some (v, r)"
  shows "length r \<le> length cs"
proof (cases cs)
  case Nil
  with v show ?thesis by simp
next
  case (Cons c t)
  have sk: "length (skip_ws t) \<le> length t" by (rule skip_ws_length)
  consider (obj) "c = CHR 0x7B" | (arr) "c = CHR 0x5B" | (str) "c = CHR 0x22"
    | (other) "c \<noteq> CHR 0x7B" "c \<noteq> CHR 0x5B" "c \<noteq> CHR 0x22"
    by blast
  then show ?thesis
  proof cases
    case obj
    from v have "value_p (Suc n) d (CHR 0x7B # t) = Some (v, r)" unfolding Cons obj .
    then obtain x r' where x: "skip_ws t = x # r'"
      and r: "r = r' \<or> (\<exists>ms. members_p n (Suc d) (x # r') = Some (ms, r))"
      unfolding value_p_obj
      by (auto simp: map_option_apfst_Some split: if_splits list.splits)
    from r show ?thesis
    proof
      assume "r = r'"
      with x sk Cons show ?thesis by simp
    next
      assume "\<exists>ms. members_p n (Suc d) (x # r') = Some (ms, r)"
      then obtain ms where "members_p n (Suc d) (x # r') = Some (ms, r)" ..
      from M[OF this] x sk Cons show ?thesis by simp
    qed
  next
    case arr
    from v have "value_p (Suc n) d (CHR 0x5B # t) = Some (v, r)" unfolding Cons arr .
    then obtain x r' where x: "skip_ws t = x # r'"
      and r: "r = r' \<or> (\<exists>vs. elements_p n (Suc d) (x # r') = Some (vs, r))"
      unfolding value_p_arr
      by (auto simp: map_option_apfst_Some split: if_splits list.splits)
    from r show ?thesis
    proof
      assume "r = r'"
      with x sk Cons show ?thesis by simp
    next
      assume "\<exists>vs. elements_p n (Suc d) (x # r') = Some (vs, r)"
      then obtain vs where "elements_p n (Suc d) (x # r') = Some (vs, r)" ..
      from E[OF this] x sk Cons show ?thesis by simp
    qed
  next
    case str
    from v have "value_p (Suc n) d (CHR 0x22 # t) = Some (v, r)" unfolding Cons str .
    then obtain s where "string_p t = Some (s, r)"
      unfolding value_p_str by (auto simp: map_option_apfst_Some)
    from string_p_length[OF this] Cons show ?thesis by simp
  next
    case other
    from v have "value_p (Suc n) d (c # t) = Some (v, r)" unfolding Cons .
    then have "r = drop 4 cs \<or> r = drop 5 cs \<or> (\<exists>s. number_p cs = Some (s, r))"
      unfolding value_p_other[OF other] Cons
      by (auto simp: map_option_apfst_Some split: if_splits
               simp del: take_Suc_Cons drop_Suc_Cons take_Cons_numeral drop_Cons_numeral)
    then show ?thesis by (auto dest: number_p_length)
  qed
qed


lemma elements_p_Suc_length:
  assumes V: "\<And>d cs v r. value_p n d cs = Some (v, r) \<Longrightarrow> length r \<le> length cs"
    and E: "\<And>d cs vs r. elements_p n d cs = Some (vs, r) \<Longrightarrow> length r \<le> length cs"
    and e: "elements_p (Suc n) d cs = Some (vs, r)"
  shows "length r \<le> length cs"
proof -
  from e obtain v r0 where v: "value_p n d cs = Some (v, r0)"
    by (auto split: option.splits)
  with e obtain x r' where x: "skip_ws r0 = x # r'"
    and r: "r = r' \<or> (\<exists>vs'. elements_p n d (skip_ws r') = Some (vs', r))"
    by (auto simp: map_option_apfst_Some split: list.splits if_splits)
  have 1: "length r' < length cs"
    using V[OF v] skip_ws_length[of r0] x by simp
  from r show ?thesis
  proof
    assume "r = r'" with 1 show ?thesis by simp
  next
    assume "\<exists>vs'. elements_p n d (skip_ws r') = Some (vs', r)"
    then obtain vs' where "elements_p n d (skip_ws r') = Some (vs', r)" ..
    from E[OF this] skip_ws_length[of r'] 1 show ?thesis by simp
  qed
qed

lemma members_p_Suc_length:
  assumes V: "\<And>d cs v r. value_p n d cs = Some (v, r) \<Longrightarrow> length r \<le> length cs"
    and M: "\<And>d cs ms r. members_p n d cs = Some (ms, r) \<Longrightarrow> length r \<le> length cs"
    and m: "members_p (Suc n) d cs = Some (ms, r)"
  shows "length r \<le> length cs"
proof -
  from m obtain q t where cs: "cs = q # t" and q: "q = CHR 0x22"
    by (cases cs) (auto split: if_splits)
  with m obtain k r1 where k: "string_p t = Some (k, r1)"
    by (auto split: option.splits)
  with m cs q obtain colon r2 where c: "skip_ws r1 = colon # r2" "colon = CHR '':''"
    by (auto split: list.splits if_splits)
  with m cs q k obtain v r3 where v: "value_p n d (skip_ws r2) = Some (v, r3)"
    by (auto split: option.splits)
  with m cs q k c obtain x r4 where x: "skip_ws r3 = x # r4"
    and r: "r = r4 \<or> (\<exists>ms'. members_p n d (skip_ws r4) = Some (ms', r))"
    by (auto simp: map_option_apfst_Some split: list.splits if_splits)
  have 1: "length r4 < length cs"
    using string_p_length[OF k] skip_ws_length[of r1] c(1) skip_ws_length[of r2] V[OF v]
      skip_ws_length[of r3] x cs
    by simp
  from r show ?thesis
  proof
    assume "r = r4" with 1 show ?thesis by simp
  next
    assume "\<exists>ms'. members_p n d (skip_ws r4) = Some (ms', r)"
    then obtain ms' where "members_p n d (skip_ws r4) = Some (ms', r)" ..
    from M[OF this] skip_ws_length[of r4] 1 show ?thesis by simp
  qed
qed

lemma parser_length:
  "(\<forall>d cs v r. value_p n d cs = Some (v, r) \<longrightarrow> length r \<le> length cs)
   \<and> (\<forall>d cs vs r. elements_p n d cs = Some (vs, r) \<longrightarrow> length r \<le> length cs)
   \<and> (\<forall>d cs ms r. members_p n d cs = Some (ms, r) \<longrightarrow> length r \<le> length cs)"
proof (induction n)
  case 0
  show ?case by simp
next
  case (Suc n)
  then have V: "\<And>d cs v r. value_p n d cs = Some (v, r) \<Longrightarrow> length r \<le> length cs"
    and E: "\<And>d cs vs r. elements_p n d cs = Some (vs, r) \<Longrightarrow> length r \<le> length cs"
    and M: "\<And>d cs ms r. members_p n d cs = Some (ms, r) \<Longrightarrow> length r \<le> length cs"
    by blast+
  show ?case
  proof (intro conjI allI impI)
    fix d cs v r assume a: "value_p (Suc n) d cs = Some (v, r)"
    show "length r \<le> length cs"
      by (rule value_p_Suc_length[where n = n and d = d and v = v]) (fact M E a)+
  next
    fix d cs vs r assume a: "elements_p (Suc n) d cs = Some (vs, r)"
    show "length r \<le> length cs"
      by (rule elements_p_Suc_length[where n = n and d = d and vs = vs]) (fact V E a)+
  next
    fix d cs ms r assume a: "members_p (Suc n) d cs = Some (ms, r)"
    show "length r \<le> length cs"
      by (rule members_p_Suc_length[where n = n and d = d and ms = ms]) (fact V M a)+
  qed
qed

lemma value_p_length: "value_p n d cs = Some (v, r) \<Longrightarrow> length r \<le> length cs"
  using parser_length by blast


lemma value_p_fuel_step:
  assumes M: "\<And>d cs. 2 * length cs + 1 < n \<Longrightarrow> members_p (Suc n) d cs = members_p n d cs"
    and E: "\<And>d cs. 2 * length cs + 1 < n \<Longrightarrow> elements_p (Suc n) d cs = elements_p n d cs"
    and l: "2 * length cs < Suc n"
  shows "value_p (Suc (Suc n)) d cs = value_p (Suc n) d cs"
proof (cases cs)
  case Nil
  then show ?thesis by simp
next
  case (Cons c t)
  have sk: "length (skip_ws t) \<le> length t" by (rule skip_ws_length)
  have inner: "2 * length (skip_ws t) + 1 < n" using sk l Cons by simp
  consider (obj) "c = CHR 0x7B" | (arr) "c = CHR 0x5B" | (str) "c = CHR 0x22"
    | (other) "c \<noteq> CHR 0x7B" "c \<noteq> CHR 0x5B" "c \<noteq> CHR 0x22"
    by blast
  then show ?thesis
  proof cases
    case obj
    show ?thesis
      unfolding Cons obj value_p_obj using M[OF inner]
      by (auto split: list.split)
  next
    case arr
    show ?thesis
      unfolding Cons arr value_p_arr using E[OF inner]
      by (auto split: list.split)
  next
    case str
    show ?thesis unfolding Cons str value_p_str ..
  next
    case other
    show ?thesis unfolding Cons value_p_other[OF other] ..
  qed
qed

lemma elements_p_fuel_step:
  assumes V: "\<And>d cs. 2 * length cs < n \<Longrightarrow> value_p (Suc n) d cs = value_p n d cs"
    and E: "\<And>d cs. 2 * length cs + 1 < n \<Longrightarrow> elements_p (Suc n) d cs = elements_p n d cs"
    and l: "2 * length cs + 1 < Suc n"
  shows "elements_p (Suc (Suc n)) d cs = elements_p (Suc n) d cs"
proof -
  have v: "value_p (Suc n) d cs = value_p n d cs" using l by (intro V) simp
  show ?thesis
  proof (cases "value_p n d cs")
    case None
    with v show ?thesis by (simp del: value_p.simps)
  next
    case (Some a)
    obtain x r where a: "a = (x, r)" by (cases a)
    have r: "length r \<le> length cs" using Some a by (auto dest: value_p_length)
    show ?thesis
    proof (cases "skip_ws r")
      case Nil
      with v Some a show ?thesis by (simp del: value_p.simps)
    next
      case (Cons y r')
      have "length r' < length cs" using skip_ws_length[of r] Cons r by simp
      then have "2 * length (skip_ws r') + 1 < n" using skip_ws_length[of r'] l by simp
      from E[OF this] v Some a Cons show ?thesis by (simp del: value_p.simps)
    qed
  qed
qed

lemma members_p_fuel_step:
  assumes V: "\<And>d cs. 2 * length cs < n \<Longrightarrow> value_p (Suc n) d cs = value_p n d cs"
    and M: "\<And>d cs. 2 * length cs + 1 < n \<Longrightarrow> members_p (Suc n) d cs = members_p n d cs"
    and l: "2 * length cs + 1 < Suc n"
  shows "members_p (Suc (Suc n)) d cs = members_p (Suc n) d cs"
proof (cases cs)
  case Nil
  then show ?thesis by simp
next
  case cs: (Cons q t)
  show ?thesis
  proof (cases "string_p t")
    case None
    with cs show ?thesis by (simp del: value_p.simps)
  next
    case (Some a)
    obtain k r1 where a: "a = (k, r1)" by (cases a)
    have r1: "length r1 \<le> length t" using Some a by (auto dest: string_p_length)
    show ?thesis
    proof (cases "skip_ws r1")
      case Nil
      with cs Some a show ?thesis by (simp del: value_p.simps)
    next
      case c: (Cons colon r2)
      have r2: "length (skip_ws r2) < length cs"
        using skip_ws_length[of r2] skip_ws_length[of r1] c r1 cs by simp
      then have v: "value_p (Suc n) d (skip_ws r2) = value_p n d (skip_ws r2)"
        using l by (intro V) simp
      show ?thesis
      proof (cases "value_p n d (skip_ws r2)")
        case None
        with cs Some a c v show ?thesis by (simp del: value_p.simps)
      next
        case vs: (Some b)
        obtain x r3 where b: "b = (x, r3)" by (cases b)
        have r3: "length r3 \<le> length (skip_ws r2)" using vs b by (auto dest: value_p_length)
        show ?thesis
        proof (cases "skip_ws r3")
          case Nil
          with cs Some a c v vs b show ?thesis by (simp del: value_p.simps)
        next
          case x: (Cons y r4)
          have "length r4 < length cs" using skip_ws_length[of r3] x r3 r2 by simp
          then have "2 * length (skip_ws r4) + 1 < n" using skip_ws_length[of r4] l by simp
          from M[OF this] cs Some a c v vs b x show ?thesis by (simp del: value_p.simps)
        qed
      qed
    qed
  qed
qed

lemma parser_fuel_step:
  "(\<forall>d cs. 2 * length cs < n \<longrightarrow> value_p (Suc n) d cs = value_p n d cs)
   \<and> (\<forall>d cs. 2 * length cs + 1 < n \<longrightarrow> elements_p (Suc n) d cs = elements_p n d cs)
   \<and> (\<forall>d cs. 2 * length cs + 1 < n \<longrightarrow> members_p (Suc n) d cs = members_p n d cs)"
proof (induction n)
  case 0
  show ?case by simp
next
  case (Suc n)
  then have V: "\<And>d cs. 2 * length cs < n \<Longrightarrow> value_p (Suc n) d cs = value_p n d cs"
    and E: "\<And>d cs. 2 * length cs + 1 < n \<Longrightarrow> elements_p (Suc n) d cs = elements_p n d cs"
    and M: "\<And>d cs. 2 * length cs + 1 < n \<Longrightarrow> members_p (Suc n) d cs = members_p n d cs"
    by blast+
  show ?case
  proof (intro conjI allI impI)
    fix d and cs :: string assume a: "2 * length cs < Suc n"
    show "value_p (Suc (Suc n)) d cs = value_p (Suc n) d cs"
      by (rule value_p_fuel_step[where n = n]) (fact M E a)+
  next
    fix d and cs :: string assume a: "2 * length cs + 1 < Suc n"
    show "elements_p (Suc (Suc n)) d cs = elements_p (Suc n) d cs"
      by (rule elements_p_fuel_step[where n = n]) (fact V E a)+
  next
    fix d and cs :: string assume a: "2 * length cs + 1 < Suc n"
    show "members_p (Suc (Suc n)) d cs = members_p (Suc n) d cs"
      by (rule members_p_fuel_step[where n = n]) (fact V M a)+
  qed
qed

lemma value_p_more_fuel: "2 * length cs < n \<Longrightarrow> value_p (n + m) d cs = value_p n d cs"
proof (induction m)
  case 0
  show ?case by simp
next
  case (Suc m)
  have "value_p (Suc (n + m)) d cs = value_p (n + m) d cs"
    using parser_fuel_step[of "n + m"] Suc.prems by simp
  with Suc show ?case by simp
qed

lemma parse_json_fuel:
  assumes "2 * length data + 2 \<le> n"
  shows "value_p n 0 (skip_ws data) = value_p (2 * length data + 2) 0 (skip_ws data)"
proof -
  from assms obtain m where n: "n = (2 * length data + 2) + m"
    using le_Suc_ex by blast
  have "2 * length (skip_ws data) < 2 * length data + 2"
    using skip_ws_length[of data] by simp
  from value_p_more_fuel[OF this, of m 0] show ?thesis unfolding n .
qed

subsection \<open>Error classification\<close>

text \<open>
  Claim C1, as the code has it. For every body, \<open>parseError\<close> on status 401 or 403
  gives the code \<open>AUTH_ERROR\<close>, on 429 \<open>RATE_LIMIT_ERROR\<close>, on 400 \<open>VALIDATION_ERROR\<close>,
  on 404 \<open>NOT_FOUND\<close>, each with a suggestion that is not empty. For every other status
  the suggestion and the documentation URL are empty, and the code is the one the body
  carries: the \<open>error.code\<close> of a body that decodes with a non-empty \<open>error.message\<close>,
  and empty otherwise.
\<close>

theorem parseError_codes:
  "(s = 401 \<or> s = 403 \<longrightarrow>
      Code (parseError s b) = ''AUTH_ERROR'' \<and> Suggestion (parseError s b) \<noteq> [])
   \<and> (s = 429 \<longrightarrow>
      Code (parseError s b) = ''RATE_LIMIT_ERROR'' \<and> Suggestion (parseError s b) \<noteq> [])
   \<and> (s = 400 \<longrightarrow>
      Code (parseError s b) = ''VALIDATION_ERROR'' \<and> Suggestion (parseError s b) \<noteq> [])
   \<and> (s = 404 \<longrightarrow>
      Code (parseError s b) = ''NOT_FOUND'' \<and> Suggestion (parseError s b) \<noteq> [])
   \<and> (s \<noteq> 401 \<and> s \<noteq> 403 \<and> s \<noteq> 429 \<and> s \<noteq> 400 \<and> s \<noteq> 404 \<longrightarrow>
      Suggestion (parseError s b) = [] \<and> DocsURL (parseError s b) = []
      \<and> Code (parseError s b) =
          (case json_Unmarshal b of
             Some r \<Rightarrow> if Error_Message r \<noteq> [] then Error_Code r else []
           | None \<Rightarrow> []))"
  by (simp add: parseError_def Let_def split: option.split)

lemma json_Unmarshal_coded_error_body:
  "json_Unmarshal coded_error_body = Some \<lparr>Error_Code = ''X'', Error_Message = ''m''\<rparr>"
  by code_simp

lemma json_Unmarshal_test_error: "json_Unmarshal ''test error'' = None"
  by code_simp

text \<open>The statuses and the body of \<open>TestAPIError\<close>, and a 500 whose body has a code.\<close>

theorem parseError_codes_witness:
  "Code (parseError 401 ''test error'') = ''AUTH_ERROR''
   \<and> Suggestion (parseError 401 ''test error'') \<noteq> []
   \<and> Code (parseError 403 ''test error'') = ''AUTH_ERROR''
   \<and> Suggestion (parseError 403 ''test error'') \<noteq> []
   \<and> Code (parseError 429 ''test error'') = ''RATE_LIMIT_ERROR''
   \<and> Suggestion (parseError 429 ''test error'') \<noteq> []
   \<and> Code (parseError 400 ''test error'') = ''VALIDATION_ERROR''
   \<and> Suggestion (parseError 400 ''test error'') \<noteq> []
   \<and> Code (parseError 404 ''test error'') = ''NOT_FOUND''
   \<and> Suggestion (parseError 404 ''test error'') \<noteq> []
   \<and> Code (parseError 500 ''test error'') = []
   \<and> Suggestion (parseError 500 ''test error'') = []
   \<and> Code (parseError 500 coded_error_body) = ''X''
   \<and> Suggestion (parseError 500 coded_error_body) = []"
  using parseError_codes [of 401 "''test error''"] parseError_codes [of 403 "''test error''"]
    parseError_codes [of 429 "''test error''"] parseError_codes [of 400 "''test error''"]
    parseError_codes [of 404 "''test error''"] parseError_codes [of 500 "''test error''"]
    parseError_codes [of 500 coded_error_body]
  by (simp add: json_Unmarshal_coded_error_body json_Unmarshal_test_error)

text \<open>
  On status 500 with the body \<open>{"error":{"code":"X","message":"m"}}\<close> the code of the
  returned error is \<open>X\<close>, not empty.
\<close>

theorem parseError_other_status_counterexample:
  "Code (parseError 500 coded_error_body) = ''X'' \<and> Code (parseError 500 coded_error_body) \<noteq> []"
  by code_simp

text \<open>
  Claim C3, as the code has it. For every status and body, the message of the error that
  \<open>parseError\<close> returns is the \<open>error.message\<close> of the body when the body decodes and
  that message is not empty, otherwise the raw body when it is not empty, otherwise the
  standard status text. It is not empty whenever the body is not empty or the status has
  a standard text.
\<close>

theorem parseError_message:
  "Message (parseError s b) =
     (case json_Unmarshal b of
        Some r \<Rightarrow> if Error_Message r \<noteq> [] then Error_Message r
                  else if b \<noteq> [] then b else StatusText s
      | None \<Rightarrow> if b \<noteq> [] then b else StatusText s)
   \<and> (b \<noteq> [] \<or> StatusText s \<noteq> [] \<longrightarrow> Message (parseError s b) \<noteq> [])"
  by (auto simp add: parseError_def Let_def split: option.split)

lemma json_Unmarshal_invalid_key_body:
  "json_Unmarshal invalid_key_body = Some \<lparr>Error_Code = [], Error_Message = ''Invalid API key''\<rparr>"
  by code_simp

lemma StatusText_404: "StatusText 404 = ''Not Found''"
  by (simp add: StatusText_def statusTexts_def)

text \<open>The three sources of the message: the body's JSON, the raw body, the status text.\<close>

theorem parseError_message_witness:
  "Message (parseError 401 invalid_key_body) = ''Invalid API key''
   \<and> Message (parseError 500 ''test error'') = ''test error''
   \<and> Message (parseError 404 []) = ''Not Found''
   \<and> Message (parseError 404 []) \<noteq> []"
  using parseError_message [of 401 invalid_key_body] parseError_message [of 500 "''test error''"]
    parseError_message [of 404 "[]"]
  by (simp add: json_Unmarshal_invalid_key_body json_Unmarshal_test_error json_Unmarshal_empty
        StatusText_404)

text \<open>
  Status 599 has no standard text: with an empty body the message is empty.
\<close>

theorem parseError_message_counterexample:
  "Message (parseError 599 []) = []"
  by code_simp

subsection \<open>The executor without a key\<close>

text \<open>
  Claim C5. For every request and every world, a client whose API key is the empty string
  gets the error \<open>API key is required\<close> from \<open>Do\<close>, and the run has no event: no request
  is made and no backoff timer is started.
\<close>

theorem Do_requires_key:
  "apiKey c = [] \<Longrightarrow> Do c w req = ((None, Some (errorString ''API key is required'')), [])"
  by (simp add: Do_def)

theorem Do_requires_key_witness:
  "apiKey keyless_client = []
   \<and> Do keyless_client (plain_world flaky_server) test_request
       = ((None, Some (errorString ''API key is required'')), [])
   \<and> Error (errorString ''API key is required'') = ''API key is required''"
proof -
  have k: "apiKey keyless_client = []"
    by (simp add: keyless_client_def NewClient_def)
  from Do_requires_key [OF k] k show ?thesis by simp
qed

subsection \<open>One attempt, and what \<open>Do\<close> keeps of it\<close>

lemma doRequest_responds:
  assumes "attempt_result w k = responds s b h t"
  shows "\<exists>resp. doRequest c w k = (Some resp, if s \<ge> 400 then Some (apiError (parseError s b)) else None)
           \<and> Response.StatusCode resp = s \<and> Body resp = b \<and> Headers resp = h
           \<and> ResponseTimeMS (Meta resp) = t"
  using assms by (simp add: doRequest_def Let_def split: option.split)






subsection \<open>Retries\<close>

lemma Do_loop_success:
  assumes "int a \<le> maxRetries c" and "a > 0 \<longrightarrow> ctx_Done w a = None"
    and "snd (doRequest c w a) = None"
  shows "Do_loop c w (int a) le = ((fst (doRequest c w a), None), iteration_events a)"
  using assms
  by (subst Do_loop.simps) (auto simp: iteration_events_def Let_def split: prod.splits option.splits)

lemma Do_loop_retry_step:
  assumes "int a \<le> maxRetries c" and "a > 0 \<longrightarrow> ctx_Done w a = None"
    and "doRequest c w a = (Some resp, Some e)" and "500 \<le> Response.StatusCode resp"
  shows "Do_loop c w (int a) le =
           (fst (Do_loop c w (int (Suc a)) (Some e)),
            iteration_events a @ snd (Do_loop c w (int (Suc a)) (Some e)))"
  using assms
  by (subst Do_loop.simps)
     (auto simp: iteration_events_def Let_def add.commute split: prod.splits option.splits)

lemma Do_loop_retry:
  assumes "int a + int m \<le> maxRetries c"
    and "\<forall>k. a \<le> k \<and> k < a + m \<longrightarrow> (\<exists>s b h t. attempt_result w k = responds s b h t \<and> 500 \<le> s)"
    and "attempt_result w (a + m) = responds s b h t" and "s < 400"
    and "\<forall>k. 1 \<le> k \<and> a \<le> k \<and> k \<le> a + m \<longrightarrow> ctx_Done w k = None"
  shows "Do_loop c w (int a) le =
           (doRequest c w (a + m), concat (map iteration_events [a..<Suc (a + m)]))"
  using assms
proof (induction m arbitrary: a le)
  case 0
  from doRequest_responds[OF "0.prems"(3), of c] "0.prems"(4)
  obtain resp where r: "doRequest c w a = (Some resp, None)" by auto
  have "Do_loop c w (int a) le = ((fst (doRequest c w a), None), iteration_events a)"
    using 0 r by (intro Do_loop_success) auto
  then show ?case using r by simp
next
  case (Suc m)
  have "a \<le> a \<and> a < a + Suc m" by simp
  with Suc.prems(2) have "\<exists>s b h t. attempt_result w a = responds s b h t \<and> 500 \<le> s"
    by blast
  then obtain s' b' h' t' where
    a: "attempt_result w a = responds s' b' h' t'" and s': "500 \<le> s'"
    by blast
  from doRequest_responds[OF a, of c] s'
  obtain resp where r: "doRequest c w a = (Some resp, Some (apiError (parseError s' b')))"
    and rs: "Response.StatusCode resp = s'" by auto
  have step: "Do_loop c w (int a) le =
           (fst (Do_loop c w (int (Suc a)) (Some (apiError (parseError s' b')))),
            iteration_events a @ snd (Do_loop c w (int (Suc a)) (Some (apiError (parseError s' b')))))"
    using Suc.prems r rs s' by (intro Do_loop_retry_step[where resp = resp]) auto
  have IH: "Do_loop c w (int (Suc a)) (Some (apiError (parseError s' b'))) =
           (doRequest c w (Suc a + m), concat (map iteration_events [Suc a..<Suc (Suc a + m)]))"
    using Suc.prems by (intro Suc.IH) auto
  show ?case
    using step IH by (simp add: upt_conv_Cons del: upt_Suc)
qed

lemma attempts_iteration: "attempts (iteration_events k @ evs) = Suc (attempts evs)"
  by (simp add: attempts_def iteration_events_def)

lemma attempts_schedule:
  "attempts (concat (map iteration_events [a..<a + n])) = n"
proof (induction n arbitrary: a)
  case 0 then show ?case by (simp add: attempts_def)
next
  case (Suc n)
  have "[a..<a + Suc n] = a # [Suc a..<Suc a + n]" by (simp add: upt_conv_Cons del: upt_Suc)
  then show ?case using Suc[of "Suc a"] by (simp add: attempts_iteration del: upt_Suc)
qed

text \<open>
  Claim C4. Let the client have a key, the URL parse, and the context not be done during
  the waits. For every \<open>N\<close> with \<open>1 \<le> N \<le> maxRetries + 1\<close>, if the server answers the
  first \<open>N - 1\<close> attempts with a status of 500 or more and attempt \<open>N\<close> with a status
  below 400, then \<open>Do\<close> returns the response of attempt \<open>N\<close> and no error, and the run
  makes exactly \<open>N\<close> attempts: attempt 0 at once, each later attempt \<open>k\<close> after a timer of
  \<open>k\<close> seconds.
\<close>

theorem Do_succeeds_on_attempt_N:
  assumes "apiKey c \<noteq> []" and "url_Parse w (baseURL c @ Endpoint req) = None"
    and "1 \<le> N" and "int N \<le> maxRetries c + 1"
    and "\<forall>k<N - 1. \<exists>s b h t. attempt_result w k = responds s b h t \<and> 500 \<le> s"
    and "attempt_result w (N - 1) = responds s b h t" and "s < 400"
    and "\<forall>k. 1 \<le> k \<and> k < N \<longrightarrow> ctx_Done w k = None"
  shows "\<exists>resp. fst (Do c w req) = (Some resp, None)
           \<and> Response.StatusCode resp = s \<and> Body resp = b \<and> Headers resp = h
           \<and> attempts (snd (Do c w req)) = N
           \<and> snd (Do c w req) = concat (map iteration_events [0..<N])"
proof -
  have "Do_loop c w (int 0) None =
          (doRequest c w (0 + (N - 1)), concat (map iteration_events [0..<Suc (0 + (N - 1))]))"
    using assms by (intro Do_loop_retry) auto
  then have D: "Do c w req = (doRequest c w (N - 1), concat (map iteration_events [0..<N]))"
    using assms by (simp add: Do_def)
  from doRequest_responds[OF assms(6), of c] assms(7)
  obtain resp where "doRequest c w (N - 1) = (Some resp, None)"
    "Response.StatusCode resp = s" "Body resp = b" "Headers resp = h" by auto
  moreover have "attempts (concat (map iteration_events [0..<N])) = N"
    using attempts_schedule[of 0 N] by simp
  ultimately show ?thesis using D by simp
qed

text \<open>\<open>TestClient_Retries\<close>: two answers of 500, then 200, with three retries allowed.\<close>

theorem Do_succeeds_on_attempt_N_witness:
  \<open>\<exists>resp. fst (Do test_client (plain_world flaky_server) test_request) = (Some resp, None)
           \<and> Response.StatusCode resp = 200 \<and> Body resp = ''{"result":"success"}''
           \<and> Headers resp = []
           \<and> attempts (snd (Do test_client (plain_world flaky_server) test_request)) = 3
           \<and> snd (Do test_client (plain_world flaky_server) test_request)
               = concat (map iteration_events [0..<3])\<close>
proof -
  have 1: "apiKey test_client \<noteq> []"
    by (simp add: test_client_def NewClient_def)
  have 2: "url_Parse (plain_world flaky_server) (baseURL test_client @ Endpoint test_request) = None"
    by (simp add: plain_world_def)
  have 3: "(1::nat) \<le> 3" by simp
  have 4: "int 3 \<le> maxRetries test_client + 1"
    by (simp add: test_client_def NewClient_def)
  have 5: "\<forall>k<3 - 1. \<exists>s b h t. attempt_result (plain_world flaky_server) k = responds s b h t
              \<and> 500 \<le> s"
    by (simp add: plain_world_def flaky_server_def)
  have 6: \<open>attempt_result (plain_world flaky_server) (3 - 1)
             = responds 200 ''{"result":"success"}'' [] 0\<close>
    by (simp add: plain_world_def flaky_server_def)
  have 7: "(200::int) < 400" by simp
  have 8: "\<forall>k. 1 \<le> k \<and> k < 3 \<longrightarrow> ctx_Done (plain_world flaky_server) k = None"
    by (simp add: plain_world_def)
  from Do_succeeds_on_attempt_N [OF 1 2 3 4 5 6 7 8] show ?thesis .
qed

subsection \<open>Backoff and cancellation\<close>










subsection \<open>Configuration defaults\<close>

lemma Do_loop_exhausted:
  assumes "\<forall>k. \<exists>s b h t. attempt_result w k = responds s b h t \<and> 500 \<le> s"
    and "\<forall>k. ctx_Done w k = None"
  shows "attempts (snd (Do_loop c w (int a) le)) = nat (maxRetries c + 1 - int a)"
proof (induction "nat (maxRetries c + 1 - int a)" arbitrary: a le rule: less_induct)
  case less
  show ?case
  proof (cases "int a \<le> maxRetries c")
    case False
    then have "Do_loop c w (int a) le = (request_failed c le, [])"
      by (subst Do_loop.simps) simp
    with False show ?thesis by (simp add: attempts_def)
  next
    case True
    from assms(1) obtain s b h t where a: "attempt_result w a = responds s b h t" and s: "500 \<le> s"
      by blast
    from doRequest_responds[OF a, of c] s
    obtain resp where r: "doRequest c w a = (Some resp, Some (apiError (parseError s b)))"
      and rs: "Response.StatusCode resp = s" by auto
    have step: "Do_loop c w (int a) le =
           (fst (Do_loop c w (int (Suc a)) (Some (apiError (parseError s b)))),
            iteration_events a @ snd (Do_loop c w (int (Suc a)) (Some (apiError (parseError s b)))))"
      using True assms(2) r rs s by (intro Do_loop_retry_step[where resp = resp]) auto
    have "attempts (snd (Do_loop c w (int (Suc a)) (Some (apiError (parseError s b)))))
            = nat (maxRetries c + 1 - int (Suc a))"
      using True by (intro less.hyps) auto
    with step True show ?thesis by (simp add: attempts_iteration)
  qed
qed

text \<open>
  Claim C10. For every configuration, \<open>NewClient\<close> replaces a zero value by the default:
  an empty \<open>BaseURL\<close> becomes the base-URL constant, a \<open>Timeout\<close> of 0 becomes 60
  seconds, \<open>MaxRetries = 0\<close> becomes 3; any other value is kept, and the API key is passed
  on as it is. So no client made by \<open>NewClient\<close> has a retry count of zero, and the
  configuration cannot ask for one attempt without retries: against a server that fails
  every attempt with a status of 500 or more, a client made by \<open>NewClient\<close> makes
  \<open>maxRetries + 1\<close> attempts (none when \<open>MaxRetries\<close> is negative), never exactly one.
\<close>

theorem NewClient_defaults:
  "baseURL (NewClient cfg) = (if BaseURL cfg = [] then BaseURL_const else BaseURL cfg)
   \<and> httpClient_Timeout (NewClient cfg) = (if Timeout cfg = 0 then 60 * Second else Timeout cfg)
   \<and> maxRetries (NewClient cfg) = (if MaxRetries cfg = 0 then 3 else MaxRetries cfg)
   \<and> apiKey (NewClient cfg) = APIKey cfg
   \<and> maxRetries (NewClient cfg) \<noteq> 0
   \<and> (APIKey cfg \<noteq> [] \<and> url_Parse w (baseURL (NewClient cfg) @ Endpoint req) = None
        \<and> (\<forall>k. \<exists>s b h t. attempt_result w k = responds s b h t \<and> 500 \<le> s)
        \<and> (\<forall>k. ctx_Done w k = None) \<longrightarrow>
        attempts (snd (Do (NewClient cfg) w req)) = nat (maxRetries (NewClient cfg) + 1)
        \<and> attempts (snd (Do (NewClient cfg) w req)) \<noteq> 1)"
proof -
  have m: "maxRetries (NewClient cfg) \<noteq> 0"
    by (simp add: NewClient_def Let_def DefaultMaxRetries_def)
  have "attempts (snd (Do (NewClient cfg) w req)) = nat (maxRetries (NewClient cfg) + 1)"
    if "APIKey cfg \<noteq> []" "url_Parse w (baseURL (NewClient cfg) @ Endpoint req) = None"
       "\<forall>k. \<exists>s b h t. attempt_result w k = responds s b h t \<and> 500 \<le> s" "\<forall>k. ctx_Done w k = None"
  proof -
    have "apiKey (NewClient cfg) \<noteq> []" using that(1) by (simp add: NewClient_def Let_def)
    then have "Do (NewClient cfg) w req = Do_loop (NewClient cfg) w (int 0) None"
      using that(2) by (simp add: Do_def)
    with Do_loop_exhausted[OF that(3,4), of "NewClient cfg" 0 None] show ?thesis by simp
  qed
  moreover have "nat (maxRetries (NewClient cfg) + 1) \<noteq> 1" using m by auto
  ultimately show ?thesis
    by (simp add: NewClient_def Let_def DefaultTimeout_def DefaultMaxRetries_def)
qed

text \<open>
  The zero configuration of the tests, with a key only, against a server that always
  answers 500: three retries, four attempts.
\<close>

theorem NewClient_defaults_witness:
  "baseURL (NewClient \<lparr>APIKey = ''test-key'', BaseURL = [], Timeout = 0, MaxRetries = 0\<rparr>)
     = ''https://api.ahrefs.com/v3''
   \<and> httpClient_Timeout (NewClient \<lparr>APIKey = ''test-key'', BaseURL = [], Timeout = 0, MaxRetries = 0\<rparr>)
     = 60000000000
   \<and> maxRetries (NewClient \<lparr>APIKey = ''test-key'', BaseURL = [], Timeout = 0, MaxRetries = 0\<rparr>) = 3
   \<and> attempts (snd (Do (NewClient \<lparr>APIKey = ''test-key'', BaseURL = [], Timeout = 0, MaxRetries = 0\<rparr>)
                       (plain_world failing_server) test_request)) = 4"
proof -
  note N = NewClient_defaults
             [of "\<lparr>APIKey = ''test-key'', BaseURL = [], Timeout = 0, MaxRetries = 0\<rparr>"
                 "plain_world failing_server" test_request]
  have h: "APIKey \<lparr>APIKey = ''test-key'', BaseURL = [], Timeout = 0, MaxRetries = 0\<rparr> \<noteq> []
     \<and> url_Parse (plain_world failing_server)
          (baseURL (NewClient \<lparr>APIKey = ''test-key'', BaseURL = [], Timeout = 0, MaxRetries = 0\<rparr>)
             @ Endpoint test_request) = None
     \<and> (\<forall>k. \<exists>s b h t. attempt_result (plain_world failing_server) k = responds s b h t \<and> 500 \<le> s)
     \<and> (\<forall>k. ctx_Done (plain_world failing_server) k = None)"
    by (simp add: plain_world_def failing_server_def)
  from N h have "attempts (snd (Do (NewClient \<lparr>APIKey = ''test-key'', BaseURL = [], Timeout = 0,
                                                MaxRetries = 0\<rparr>)
                       (plain_world failing_server) test_request))
        = nat (maxRetries (NewClient \<lparr>APIKey = ''test-key'', BaseURL = [], Timeout = 0,
                                         MaxRetries = 0\<rparr>) + 1)"
    by blast
  with N show ?thesis by (simp add: BaseURL_const_def Second_def)
qed

section \<open>Properties of the writer\<close>

subsection \<open>Errors are always written as JSON\<close>




subsection \<open>The layout of the YAML-like dump\<close>

lemma text_lines_Nil: "text_lines s = [] \<longleftrightarrow> s = []"
  by (cases s) (auto split: list.split)

lemma text_lines_line: "one_line xs \<Longrightarrow> text_lines (xs @ CHR 0x0A # ys) = xs # text_lines ys"
  by (induction xs) (auto simp: one_line_def)

lemma indent_text_line:
  "one_line xs \<Longrightarrow> indent_text (xs @ nl @ ys) = ''  '' @ xs @ nl @ indent_text ys"
  by (simp add: indent_text_def nl_def text_lines_line)

lemma text_lines_append: "complete a \<Longrightarrow> text_lines (a @ b) = text_lines a @ text_lines b"
proof (induction a)
  case Nil
  then show ?case by simp
next
  case (Cons c cs)
  show ?case
  proof (cases "c = CHR 0x0A")
    case True
    with Cons show ?thesis by (auto simp: complete_def split: if_splits)
  next
    case False
    with Cons.prems have cs: "cs \<noteq> []" "complete cs"
      by (auto simp: complete_def split: if_splits)
    then have "text_lines cs \<noteq> []" by (simp add: text_lines_Nil)
    then obtain l ls where l: "text_lines cs = l # ls" by (cases "text_lines cs") auto
    with Cons.IH[OF cs(2)] False show ?thesis by simp
  qed
qed

lemma indent_text_append: "complete a \<Longrightarrow> indent_text (a @ b) = indent_text a @ indent_text b"
  by (simp add: indent_text_def text_lines_append)

lemma indent_text_Nil: "indent_text [] = []"
  by (simp add: indent_text_def)

lemma complete_append: "complete a \<Longrightarrow> complete b \<Longrightarrow> complete (a @ b)"
  by (cases "b = []") (auto simp: complete_def)

lemma complete_concat: "(\<And>x. x \<in> set xs \<Longrightarrow> complete (f x)) \<Longrightarrow> complete (concat (map f xs))"
proof (induction xs)
  case Nil
  then show ?case by (simp add: complete_def)
next
  case (Cons x xs)
  then show ?case by (simp add: complete_append)
qed

lemma complete_line: "complete b \<Longrightarrow> complete (a @ nl @ b)"
  by (cases "b = []") (auto simp: complete_def nl_def)

lemma complete_header: "complete b \<Longrightarrow> complete (Repeat ''  '' n @ t @ nl @ b)"
  using complete_line[of b "Repeat ''  '' n @ t"] by simp

lemma complete_Nil: "complete []"
  by (simp add: complete_def)

lemma complete_writeYAMLValue: "complete (writeYAMLValue v n)"
proof (induction v n rule: writeYAMLValue.induct)
  case (2 iface kvs indent)
  show ?case
    unfolding writeYAMLValue.simps
    by (rule complete_concat) (use 2 complete_header[where t = "_ @ '':''"] in simp)
next
  case (3 iface vs indent)
  show ?case
    unfolding writeYAMLValue.simps
    by (rule complete_concat) (use 3 complete_header[where t = "''-''"] in simp)
next
  case (4 iface vs indent)
  show ?case
    unfolding writeYAMLValue.simps
    by (rule complete_concat) (use 4 complete_header[where t = "''-''"] in simp)
next
  case (5 fs indent)
  show ?case
    unfolding writeYAMLValue.simps
    by (rule complete_concat)
       (use 5 complete_header[where t = "_ @ '':''"] in \<open>simp add: complete_Nil\<close>)
qed (simp_all add: complete_def nl_def)

lemma one_line_Repeat: "one_line (Repeat ''  '' n)"
  by (induction n) (auto simp: one_line_def)

lemma one_line_append: "one_line (a @ b) = (one_line a \<and> one_line b)"
  by (auto simp: one_line_def)

lemma indent_text_concat:
  assumes "\<And>x. x \<in> set xs \<Longrightarrow> complete (f x)"
    and "\<And>x. x \<in> set xs \<Longrightarrow> g x = indent_text (f x)"
  shows "concat (map g xs) = indent_text (concat (map f xs))"
  using assms
  by (induction xs) (auto simp: indent_text_Nil indent_text_append)

lemma scalar_shift:
  "one_line t \<Longrightarrow> Repeat ''  '' (Suc n) @ t @ nl = indent_text (Repeat ''  '' n @ t @ nl)"
  using indent_text_line[of "Repeat ''  '' n @ t" "[]"]
  by (simp add: one_line_append one_line_Repeat indent_text_Nil)

lemma header_shift:
  assumes "one_line t" and "complete body"
  shows "Repeat ''  '' (Suc n) @ t @ nl @ indent_text body = indent_text (Repeat ''  '' n @ t @ nl @ body)"
  using indent_text_line[of "Repeat ''  '' n @ t" body] assms
  by (simp add: one_line_append one_line_Repeat)

lemma entry_shift:
  assumes "one_line t" and "writeYAMLValue v (Suc (Suc n)) = indent_text (writeYAMLValue v (Suc n))"
  shows "Repeat ''  '' (Suc n) @ t @ nl @ writeYAMLValue v (Suc (Suc n))
           = indent_text (Repeat ''  '' n @ t @ nl @ writeYAMLValue v (Suc n))"
  using header_shift[OF assms(1) complete_writeYAMLValue, of n v "Suc n"] assms(2) by simp

lemma writeYAMLValue_shift:
  "single_lines v \<Longrightarrow> writeYAMLValue v (Suc n) = indent_text (writeYAMLValue v n)"
proof (induction v n arbitrary: rule: writeYAMLValue.induct)
  case (1 indent)
  show ?case using scalar_shift[of "''nil''" indent] by (simp add: one_line_def)
next
  case (2 iface kvs indent)
  show ?case
    unfolding writeYAMLValue.simps
  proof (rule indent_text_concat)
    fix kv assume kv: "kv \<in> set kvs"
    show "complete (Repeat ''  '' indent @ fst kv @ '':'' @ nl @ writeYAMLValue (snd kv) (indent + 1))"
      using complete_header[OF complete_writeYAMLValue, of indent "fst kv @ '':''"] by simp
    have s: "single_lines (snd kv)" and o: "one_line (fst kv @ '':'')"
      using 2(2) kv by (auto simp: one_line_def)
    from "2.IH"[OF kv s] entry_shift[OF o, of "snd kv" indent]
    show "Repeat ''  '' (Suc indent) @ fst kv @ '':'' @ nl @ writeYAMLValue (snd kv) (Suc indent + 1) =
          indent_text (Repeat ''  '' indent @ fst kv @ '':'' @ nl @ writeYAMLValue (snd kv) (indent + 1))"
      by simp
  qed
next
  case (3 iface vs indent)
  show ?case
    unfolding writeYAMLValue.simps
  proof (rule indent_text_concat)
    fix v assume v: "v \<in> set vs"
    show "complete (Repeat ''  '' indent @ ''-'' @ nl @ writeYAMLValue v (indent + 1))"
      using complete_header[OF complete_writeYAMLValue, of indent "''-''"] by simp
    have s: "single_lines v" using 3(2) v by auto
    have o: "one_line ''-''" by (simp add: one_line_def)
    from "3.IH"[OF v s] entry_shift[OF o, of v indent]
    show "Repeat ''  '' (Suc indent) @ ''-'' @ nl @ writeYAMLValue v (Suc indent + 1) =
          indent_text (Repeat ''  '' indent @ ''-'' @ nl @ writeYAMLValue v (indent + 1))"
      by simp
  qed
next
  case (4 iface vs indent)
  show ?case
    unfolding writeYAMLValue.simps
  proof (rule indent_text_concat)
    fix v assume v: "v \<in> set vs"
    show "complete (Repeat ''  '' indent @ ''-'' @ nl @ writeYAMLValue v (indent + 1))"
      using complete_header[OF complete_writeYAMLValue, of indent "''-''"] by simp
    have s: "single_lines v" using 4(2) v by auto
    have o: "one_line ''-''" by (simp add: one_line_def)
    from "4.IH"[OF v s] entry_shift[OF o, of v indent]
    show "Repeat ''  '' (Suc indent) @ ''-'' @ nl @ writeYAMLValue v (Suc indent + 1) =
          indent_text (Repeat ''  '' indent @ ''-'' @ nl @ writeYAMLValue v (indent + 1))"
      by simp
  qed
next
  case (5 fs indent)
  show ?case
    unfolding writeYAMLValue.simps
  proof (rule indent_text_concat)
    fix fv assume fv: "fv \<in> set fs"
    show "complete (if IsExported (fst fv)
                    then Repeat ''  '' indent @ Name (fst fv) @ '':'' @ nl
                         @ writeYAMLValue (snd fv) (indent + 1)
                    else [])"
      using complete_header[OF complete_writeYAMLValue, of indent "Name (fst fv) @ '':''"]
      by (simp add: complete_Nil)
    show "(if IsExported (fst fv)
           then Repeat ''  '' (Suc indent) @ Name (fst fv) @ '':'' @ nl
                @ writeYAMLValue (snd fv) (Suc indent + 1)
           else []) =
          indent_text (if IsExported (fst fv)
                       then Repeat ''  '' indent @ Name (fst fv) @ '':'' @ nl
                            @ writeYAMLValue (snd fv) (indent + 1)
                       else [])"
    proof (cases "IsExported (fst fv)")
      case False
      then show ?thesis by (simp add: indent_text_Nil)
    next
      case True
      have s: "single_lines (snd fv)" and o: "one_line (Name (fst fv) @ '':'')"
        using 5(2) fv True by (auto simp: one_line_def)
      from "5.IH"[OF fv True s] entry_shift[OF o, of "snd fv" indent] True
      show ?thesis by simp
    qed
  qed
qed (use scalar_shift in \<open>simp_all del: Repeat.simps Sprint_v.simps\<close>)

text \<open>
  Claim C8, as the code has it. At indentation level \<open>n\<close> (two spaces per level), every
  mapping key and every exported struct field is printed as a header line \<open>key:\<close> followed
  by its value dumped at level \<open>n + 1\<close>; unexported fields are left out; every sequence
  element is printed as a line \<open>-\<close> followed by the element dumped at level \<open>n + 1\<close>.
  A scalar is not printed after its header on the same line: it is printed on a line of
  its own at its level, so under a header or a dash it stands on the next line, one level
  deeper. Dumping a value one level deeper moves each of its lines two spaces to the
  right, when its keys, field names and scalars hold no newline.
\<close>

theorem writeYAMLValue_layout:
  "writeYAMLValue (VMap i ((k, v) # kvs)) n
     = Repeat ''  '' n @ k @ '':'' @ nl @ writeYAMLValue v (n + 1) @ writeYAMLValue (VMap i kvs) n
   \<and> writeYAMLValue (VSlice i (v # vs)) n
     = Repeat ''  '' n @ ''-'' @ nl @ writeYAMLValue v (n + 1) @ writeYAMLValue (VSlice i vs) n
   \<and> writeYAMLValue (VArray i (v # vs)) n
     = Repeat ''  '' n @ ''-'' @ nl @ writeYAMLValue v (n + 1) @ writeYAMLValue (VArray i vs) n
   \<and> writeYAMLValue (VStruct ((f, v) # fs)) n
     = (if IsExported f then Repeat ''  '' n @ Name f @ '':'' @ nl @ writeYAMLValue v (n + 1)
        else [])
       @ writeYAMLValue (VStruct fs) n
   \<and> writeYAMLValue (VMap i []) n = [] \<and> writeYAMLValue (VSlice i []) n = []
   \<and> writeYAMLValue (VArray i []) n = [] \<and> writeYAMLValue (VStruct []) n = []
   \<and> writeYAMLValue VNil n = Repeat ''  '' n @ ''nil'' @ nl
   \<and> (dynamic_kind s \<in> {KBool, KInt, KString, KOther} \<longrightarrow>
        writeYAMLValue s n = Repeat ''  '' n @ Sprint_v s @ nl
        \<and> writeYAMLValue (VMap i [(k, s)]) n
            = Repeat ''  '' n @ k @ '':'' @ nl @ Repeat ''  '' (n + 1) @ Sprint_v s @ nl
        \<and> writeYAMLValue (VSlice i [s]) n
            = Repeat ''  '' n @ ''-'' @ nl @ Repeat ''  '' (n + 1) @ Sprint_v s @ nl)
   \<and> (single_lines x \<longrightarrow> writeYAMLValue x (n + 1) = indent_text (writeYAMLValue x n))"
proof -
  have "single_lines x \<longrightarrow> writeYAMLValue x (n + 1) = indent_text (writeYAMLValue x n)"
    using writeYAMLValue_shift [of x n] by simp
  then show ?thesis by (cases s) simp_all
qed

text \<open>An integer under a key, under a dash, and the unexported field of a struct.\<close>

theorem writeYAMLValue_layout_witness:
  "dynamic_kind (VInt 1) \<in> {KBool, KInt, KString, KOther}
   \<and> writeYAMLValue (VInt 1) 2 = ''    1'' @ nl
   \<and> writeYAMLValue (VMap True [(''a'', VInt 1)]) 1 = ''  a:'' @ nl @ ''    1'' @ nl
   \<and> writeYAMLValue (VSlice True [VInt 1]) 1 = ''  -'' @ nl @ ''    1'' @ nl
   \<and> writeYAMLValue (VStruct [(\<lparr>Name = ''hidden'', PkgPath = ''models'', Tag_json = []\<rparr>, VInt 1),
                               (exported_field ''Live'' ''live'', VInt 1)]) 1
       = ''  Live:'' @ nl @ ''    1'' @ nl
   \<and> single_lines domain_rating_91
   \<and> writeYAMLValue domain_rating_91 (1 + 1) = indent_text (writeYAMLValue domain_rating_91 1)
   \<and> indent_text (writeYAMLValue domain_rating_91 1)
       = ''    DomainRating:'' @ nl @ ''      DomainRating:'' @ nl @ ''        91'' @ nl"
proof -
  have k: "dynamic_kind (VInt 1) \<in> {KBool, KInt, KString, KOther}" by simp
  note L = writeYAMLValue_layout
  have s: "Sprint_v (VInt 1) = ''1''" by code_simp
  have r: "Repeat ''  '' 1 = ''  ''" "Repeat ''  '' 2 = ''    ''" "Repeat ''  '' (1 + 1) = ''    ''"
    by code_simp+
  from L [where i = True and k = "''a''" and v = "VInt 1" and kvs = "[]" and n = 1
            and vs = "[]" and f = "\<lparr>Name = ''hidden'', PkgPath = ''models'', Tag_json = []\<rparr>"
            and fs = "[(exported_field ''Live'' ''live'', VInt 1)]" and s = "VInt 1"] k
  have 1: "writeYAMLValue (VMap True [(''a'', VInt 1)]) 1
             = Repeat ''  '' 1 @ ''a'' @ '':'' @ nl @ Repeat ''  '' (1 + 1) @ Sprint_v (VInt 1) @ nl"
    and 2: "writeYAMLValue (VSlice True [VInt 1]) 1
             = Repeat ''  '' 1 @ ''-'' @ nl @ Repeat ''  '' (1 + 1) @ Sprint_v (VInt 1) @ nl"
    and 3: "writeYAMLValue (VStruct [(\<lparr>Name = ''hidden'', PkgPath = ''models'', Tag_json = []\<rparr>, VInt 1),
                               (exported_field ''Live'' ''live'', VInt 1)]) 1
             = (if IsExported \<lparr>Name = ''hidden'', PkgPath = ''models'', Tag_json = []\<rparr>
                then Repeat ''  '' 1 @ Name \<lparr>Name = ''hidden'', PkgPath = ''models'', Tag_json = []\<rparr>
                     @ '':'' @ nl @ writeYAMLValue (VInt 1) (1 + 1)
                else [])
               @ writeYAMLValue (VStruct [(exported_field ''Live'' ''live'', VInt 1)]) 1"
    by blast+
  from L [where n = 2 and s = "VInt 1"] k
  have 4: "writeYAMLValue (VInt 1) 2 = Repeat ''  '' 2 @ Sprint_v (VInt 1) @ nl"
    by blast
  have 5: "writeYAMLValue (VStruct [(exported_field ''Live'' ''live'', VInt 1)]) 1
             = ''  Live:'' @ nl @ ''    1'' @ nl"
    by code_simp
  have 6: "single_lines domain_rating_91" by code_simp
  from L [where n = 1 and x = domain_rating_91] 6
  have 7: "writeYAMLValue domain_rating_91 (1 + 1) = indent_text (writeYAMLValue domain_rating_91 1)"
    by blast
  have 8: "indent_text (writeYAMLValue domain_rating_91 1)
       = ''    DomainRating:'' @ nl @ ''      DomainRating:'' @ nl @ ''        91'' @ nl"
    by code_simp
  show ?thesis
    using k 1 2 3 4 5 s r 6 7 8 by (simp add: IsExported_def)
qed

text \<open>
  The \<open>domain-rating\<close> payload under the format \<open>yaml\<close>, as \<open>TESTING.md\<close> shows it: the
  rating 91 stands on the line after its header, not on the header's line.
\<close>

theorem writeYAML_scalar_counterexample:
  "WriteSuccess yaml_writer domain_rating_91 None
     = ([Fprint (''status: success'' @ nl), Fprint (''data:'' @ nl),
         Fprint (''  DomainRating:'' @ nl @ ''    DomainRating:'' @ nl @ ''      91'' @ nl)],
        Returns None)
   \<and> writeYAMLValue (VMap True [(''a'', VInt 1)]) 1 = ''  a:'' @ nl @ ''    1'' @ nl
   \<and> writeYAMLValue (VMap True [(''a'', VInt 1)]) 1 \<noteq> ''  a: 1'' @ nl"
  by code_simp

subsection \<open>CSV on a map of interfaces\<close>

text \<open>
  On the value that the unwrapping leaves, \<open>writeCSV\<close> does what is said of it: it
  returns the error exactly when that value is neither a slice nor an array, and for an
  empty sequence it hands nothing to the CSV writer and returns no error.
\<close>

lemma csv_rows_outcome:
  "snd (csv_rows vs headers) = Returns None \<or> snd (csv_rows vs headers) = Panics interface_panic"
  by (induction vs) (auto split: option.split prod.split)

lemma writeCSV_error_iff:
  "snd (writeCSV w data) = Returns (Some (errorString ''CSV format requires array/slice data''))
     \<longleftrightarrow> Kind_of (unwrap_map (ValueOf data)) \<noteq> KSlice \<and> Kind_of (unwrap_map (ValueOf data)) \<noteq> KArray"
  using csv_rows_outcome [of "Elems (unwrap_map (ValueOf data))"
                             "extractHeaders (hd (Elems (unwrap_map (ValueOf data))))"]
  by (auto simp: writeCSV_def Let_def split: prod.split)

lemma writeCSV_empty:
  "Kind_of (unwrap_map (ValueOf data)) \<in> {KSlice, KArray} \<Longrightarrow> Elems (unwrap_map (ValueOf data)) = []
     \<Longrightarrow> writeCSV w data = ([], Returns None)"
  by (auto simp: writeCSV_def Let_def)

lemma unwrap_interface_map: "unwrap_map (ValueOf (VMap True kvs)) = ValueOf (VMap True kvs)"
proof -
  have "find (\<lambda>kv. Kind_of (snd kv) = KSlice \<or> Kind_of (snd kv) = KArray)
          (map (\<lambda>(k, v). (k, (True, v))) kvs) = None"
    by (induction kvs) (auto simp: Kind_of_def)
  then show ?thesis
    by (simp add: unwrap_map_def ValueOf_def Kind_of_def MapEntries_def)
qed

text \<open>
  Claim C9, where the code departs from it. A payload \<open>map[string]interface{}\<close> with a
  slice among its values has a sequence-valued entry, so after unwrapping it is a sequence
  and \<open>writeCSV\<close> should write its rows (nothing, for an empty slice) and return no
  error. But \<open>writeCSV\<close> tests \<open>fieldVal.Kind()\<close> on the result of \<open>MapIndex\<close>, which
  for a map of interfaces is \<open>Interface\<close> whatever the entry holds, so no entry is ever
  taken and \<open>writeCSV\<close> returns \<open>CSV format requires array/slice data\<close> for every map of
  interfaces. For a map with a concrete element type the same entry is unwrapped, and an
  empty sequence writes nothing and returns no error, as the claim says.
\<close>

theorem writeCSV_map_of_interfaces:
  "writeCSV w (VMap True kvs)
     = ([], Returns (Some (errorString ''CSV format requires array/slice data'')))
   \<and> writeCSV w (VMap True [(''items'', VSlice True [])])
     = ([], Returns (Some (errorString ''CSV format requires array/slice data'')))
   \<and> writeCSV w (VMap False [(''items'', VSlice True [])]) = ([], Returns None)
   \<and> writeCSV w (VSlice i []) = ([], Returns None)"
  by (simp add: writeCSV_def unwrap_interface_map Let_def)
     (simp add: unwrap_map_def ValueOf_def Kind_of_def MapEntries_def Elems_def)

end
